theory Spec2Isabelle
  imports Main "HOL-Library.Sublist"
begin

section \<open>The admin router of communitiesx: data model\<close>

text \<open>
  The development embeds \<^verbatim>\<open>src/server/trpc/routers/admin.ts\<close>. Each procedure of
  \<^verbatim>\<open>adminRouter\<close> is a function from the request context, the parsed input and the
  state of the collaborators to a result and the state afterwards. The values handed to a
  handler are the ones its zod schema has already parsed; the handler bodies are what is
  modelled first; the parse of the request input by the schema, which comes before them,
  is added in the section on input schemas. A thrown exception is the \<open>Inl\<close> branch of the
  result.
\<close>

subsection \<open>Exceptions\<close>

datatype trpc_code =
  BAD_REQUEST | UNAUTHORIZED | NOT_FOUND | CONFLICT | FORBIDDEN | INTERNAL_SERVER_ERROR

text \<open>
  What a \<^verbatim>\<open>try\<close> block can throw: a \<^verbatim>\<open>TRPCError\<close> raised by the handler itself, or any
  other exception, raised by a collaborator (the database driver, the hashing library, the
  mailer).
\<close>

datatype thrown = TRPCError trpc_code | Error

subsection \<open>Request context\<close>

record session_user =
  user_id :: string
  user_role :: string

record session =
  user :: "session_user option"

record ctx =
  session :: "session option"

text \<open>The input enum \<^verbatim>\<open>z.enum(['admin', 'user'])\<close> and the text it stands for.\<close>

datatype role_enum = Role_admin | Role_user

fun role_text :: "role_enum \<Rightarrow> string" where
  "role_text Role_admin = ''admin''"
| "role_text Role_user = ''user''"

subsection \<open>Tables\<close>

text \<open>
  Modelled from the spec: the tables are declared in \<^verbatim>\<open>@/server/db/auth-schema\<close> and
  \<^verbatim>\<open>@/server/db/schema\<close>, outside the router module. Each row type carries the columns
  the router reads or writes, as section 3 of the specification lists them; timestamps are
  milliseconds since the epoch. A table is the list of its rows in insertion order.
\<close>

record orgs_row =
  orgs_id :: string
  orgs_name :: string

record users_row =
  users_id :: string
  users_name :: string
  users_email :: string
  users_emailVerified :: bool
  users_orgId :: string
  users_role :: string
  users_createdAt :: int
  users_updatedAt :: int

record accounts_row =
  accounts_id :: string
  accounts_userId :: string
  accounts_providerId :: string
  accounts_accountId :: string
  accounts_password :: string
  accounts_createdAt :: int
  accounts_updatedAt :: int

record verifications_row =
  verifications_id :: string
  verifications_identifier :: string
  verifications_value :: string
  verifications_expiresAt :: int
  verifications_createdAt :: int
  verifications_updatedAt :: int

text \<open>
  Modelled from the spec: of \<^verbatim>\<open>communityMembers\<close> the router uses the owning user reference
  only; the remaining columns are kept as one opaque value.
\<close>

record communityMembers_row =
  communityMembers_userId :: string
  communityMembers_rest :: string

text \<open>
  Modelled from the spec: \<^verbatim>\<open>login_events\<close> appears in the raw SQL text only. A row has the
  two columns the query names; \<^verbatim>\<open>user_id\<close> may be NULL.
\<close>

record login_events_row =
  login_events_user_id :: "string option"
  login_events_created_at :: int

subsection \<open>Effects\<close>

text \<open>The mutating statements a handler can issue, recorded in the order they are executed.\<close>

datatype db_write =
    Insert_orgs orgs_row
  | Insert_users users_row
  | Insert_accounts accounts_row
  | Insert_verifications verifications_row
  | Delete_communityMembers string
  | Delete_accounts string
  | Delete_users string

record mail =
  to :: string
  subject :: string
  html :: string

text \<open>
  The state of the collaborators: the tables of the Identity Store, the log of the write
  statements executed so far (\<open>writes\<close>), and the mails handed to the mailer so far
  (\<open>outbox\<close>). The last two are ghost fields: they record the effects, in order.
\<close>

record state =
  users :: "users_row list"
  orgs :: "orgs_row list"
  accounts :: "accounts_row list"
  verifications :: "verifications_row list"
  communityMembers :: "communityMembers_row list"
  login_events :: "login_events_row list"
  writes :: "db_write list"
  outbox :: "mail list"

subsection \<open>Environment of one request\<close>

text \<open>The database statements of the router, one per call site.\<close>

datatype db_call =
    Users_findMany
  | Orgs_findMany
  | Orgs_findFirst
  | Users_findFirst
  | Orgs_insert
  | Users_insert
  | Accounts_insert
  | Verifications_insert
  | CommunityMembers_delete
  | Accounts_delete
  | Users_delete
  | LoginEvents_execute

text \<open>
  Everything a request takes from outside, fixed for the request:
  \<^item> \<open>nanoid k size\<close>: the string returned by the \<open>k\<close>-th call of \<^verbatim>\<open>nanoid\<close>
    (\<open>size = None\<close> for \<^verbatim>\<open>nanoid()\<close>);
  \<^item> \<open>Date_new k\<close>: the \<open>k\<close>-th reading of the clock, \<^verbatim>\<open>new Date()\<close>;
  \<^item> \<open>hashPassword p\<close>: the hash, or \<open>None\<close> when the library throws;
  \<^item> \<open>db_fails c\<close>: whether the statement at call site \<open>c\<close> throws; every handler
    executes each of its call sites at most once;
  \<^item> \<open>sendEmail_fails\<close>: whether the mailer throws;
  \<^item> \<open>sql_DATE\<close>: SQL's \<^verbatim>\<open>DATE(timestamp)\<close>, the store-local calendar day as a day number;
  \<^item> \<open>NEXT_PUBLIC_APP_URL\<close>: the environment variable, possibly unset;
  \<^item> \<open>LocalTZA t isUTC\<close>: ECMAScript's offset of the server's time zone from UTC in
    milliseconds, at the UTC instant \<open>t\<close> when \<open>isUTC\<close> holds and at the local time value
    \<open>t\<close> otherwise;
  \<^item> \<open>z_email\<close>: the strings that zod's \<^verbatim>\<open>z.string().email()\<close> accepts.
\<close>

record env =
  nanoid :: "nat \<Rightarrow> nat option \<Rightarrow> string"
  Date_new :: "nat \<Rightarrow> int"
  hashPassword :: "string \<Rightarrow> string option"
  db_fails :: "db_call \<Rightarrow> bool"
  sendEmail_fails :: bool
  sql_DATE :: "int \<Rightarrow> int"
  NEXT_PUBLIC_APP_URL :: "string option"
  LocalTZA :: "int \<Rightarrow> bool \<Rightarrow> int"
  z_email :: "string \<Rightarrow> bool"

subsection \<open>Inputs and results\<close>

record createOrg_input =
  createOrg_name :: string

record createUser_input =
  createUser_name :: string
  createUser_email :: string
  createUser_password :: string
  createUser_role :: role_enum
  createUser_orgId :: string

record inviteUser_input =
  inviteUser_email :: string
  inviteUser_orgId :: string
  inviteUser_role :: role_enum

record removeUser_input =
  removeUser_userId :: string

text \<open>\<^verbatim>\<open>{ success: true }\<close> of removeUser, and \<^verbatim>\<open>{ success: true, email }\<close> of inviteUser.\<close>

record ack =
  success :: bool

record invite_ack = ack +
  email :: string

record login_stat =
  date :: int
  unique_logins :: nat

section \<open>Collaborators\<close>

text \<open>
  Modelled from the spec: the Identity Store behind \<^verbatim>\<open>db\<close> (\<^verbatim>\<open>@/server/db\<close>), with the
  interface of section 6: \<open>findOne(table, predicate)\<close>, \<open>findMany(table)\<close>,
  \<open>insert(table, row)\<close>, \<open>delete(table, predicate)\<close>. No cascading delete is assumed.
\<close>

definition findFirst :: "('r \<Rightarrow> bool) \<Rightarrow> 'r list \<Rightarrow> 'r option" where
  "findFirst p rows = find p rows"

definition insert_values :: "'r \<Rightarrow> 'r list \<Rightarrow> 'r list" where
  "insert_values r rows = rows @ [r]"

definition delete_where :: "('r \<Rightarrow> bool) \<Rightarrow> 'r list \<Rightarrow> 'r list" where
  "delete_where p rows = filter (\<lambda>r. \<not> p r) rows"

text \<open>
  Modelled from the spec: \<^verbatim>\<open>sendEmail\<close> of \<^verbatim>\<open>@/lib/email\<close>, the Notification Dispatcher
  \<open>send(to, subject, htmlBody)\<close> whose failure surfaces to the caller. A mail that is
  dispatched is appended to the outbox.
\<close>

definition sendEmail :: "env \<Rightarrow> mail \<Rightarrow> state \<Rightarrow> (thrown + unit) \<times> state" where
  "sendEmail e m s =
     (if sendEmail_fails e then (Inl Error, s)
      else (Inr (), s\<lparr>outbox := outbox s @ [m]\<rparr>))"

text \<open>
  \<^verbatim>\<open>d.setDate(d.getDate() + n)\<close> on a time value \<open>t\<close> in milliseconds, as ECMAScript
  defines \<^verbatim>\<open>Date.prototype.setDate\<close>: the time value is taken to local time
  (\<open>LocalTime(t) = t + LocalTZA(t, true)\<close>), the day is moved by \<open>n\<close> with the time within the
  day kept (\<open>MakeDay\<close> with a date beyond the month's end counts on into the next month, so
  this adds \<open>n\<close> times 86400000 to the local time value), and the result is taken back
  (\<open>UTC(t) = t - LocalTZA(t, false)\<close>). The outcome is \<open>n\<close> calendar days later at the same
  local wall-clock time; it is \<open>n\<close> times 24 hours later only when the offset is the same
  at both ends.
\<close>

definition setDate_plus :: "env \<Rightarrow> int \<Rightarrow> int \<Rightarrow> int" where
  "setDate_plus e t n =
     (let localTime = t + LocalTZA e t True;
          newDate = localTime + n * 86400000
      in newDate - LocalTZA e newDate False)"

subsection \<open>JSON.stringify on an object of strings\<close>

text \<open>
  ECMAScript's QuoteJSONString on code units below 256, which is what \<open>char\<close> holds: the
  double quote and the backslash are escaped, the control characters are written with their
  short escape or as a lower-case hexadecimal escape, everything else is left as it is.
\<close>

definition hex_digit :: "nat \<Rightarrow> char" where
  "hex_digit n = ''0123456789abcdef'' ! (n mod 16)"

definition JSON_quote_char :: "char \<Rightarrow> string" where
  "JSON_quote_char c =
     (if c = CHR 0x22 then [CHR 0x5C, CHR 0x22]
      else if c = CHR 0x5C then [CHR 0x5C, CHR 0x5C]
      else if c = CHR 0x08 then [CHR 0x5C, CHR ''b'']
      else if c = CHR 0x0C then [CHR 0x5C, CHR ''f'']
      else if c = CHR 0x0A then [CHR 0x5C, CHR ''n'']
      else if c = CHR 0x0D then [CHR 0x5C, CHR ''r'']
      else if c = CHR 0x09 then [CHR 0x5C, CHR ''t'']
      else if (of_char c :: nat) < 32
        then [CHR 0x5C, CHR ''u'', CHR ''0'', CHR ''0'',
              hex_digit (of_char c div 16), hex_digit (of_char c)]
      else [c])"

definition JSON_quote :: "string \<Rightarrow> string" where
  "JSON_quote str = [CHR 0x22] @ concat (map JSON_quote_char str) @ [CHR 0x22]"

fun JSON_members :: "(string \<times> string) list \<Rightarrow> string" where
  "JSON_members [] = []"
| "JSON_members [(k, v)] = JSON_quote k @ '':'' @ JSON_quote v"
| "JSON_members ((k, v) # kvs) = JSON_quote k @ '':'' @ JSON_quote v @ '','' @ JSON_members kvs"

definition JSON_stringify :: "(string \<times> string) list \<Rightarrow> string" where
  "JSON_stringify kvs = ''{'' @ JSON_members kvs @ ''}''"

section \<open>Authorization guard\<close>

text \<open>\<^verbatim>\<open>ctx.session?.user\<close>\<close>

definition session_user_of :: "ctx \<Rightarrow> session_user option" where
  "session_user_of c = (case session c of None \<Rightarrow> None | Some ses \<Rightarrow> user ses)"

text \<open>
  The condition every handler starts with:
  \<^verbatim>\<open>!ctx.session?.user || ctx.session.user.role !== 'admin'\<close>.
\<close>

definition unauthorized :: "ctx \<Rightarrow> bool" where
  "unauthorized c =
     (case session_user_of c of None \<Rightarrow> True | Some u \<Rightarrow> user_role u \<noteq> ''admin'')"

section \<open>Exception handlers\<close>

text \<open>
  The \<^verbatim>\<open>catch\<close> block of getUsers, getOrgs and getUniqueLoginsPerDay, whose \<^verbatim>\<open>try\<close> blocks
  throw no \<^verbatim>\<open>TRPCError\<close>, and of inviteUser: whatever was thrown, an
  \<^verbatim>\<open>INTERNAL_SERVER_ERROR\<close> is thrown in its place.
\<close>

definition catch_internal :: "thrown + 'a \<Rightarrow> trpc_code + 'a" where
  "catch_internal r = (case r of Inl x \<Rightarrow> Inl INTERNAL_SERVER_ERROR | Inr v \<Rightarrow> Inr v)"

text \<open>
  The \<^verbatim>\<open>catch\<close> block of createOrg, createUser and removeUser, which starts with
  \<^verbatim>\<open>if (error instanceof TRPCError) throw error;\<close>.
\<close>

definition catch_rethrow :: "thrown + 'a \<Rightarrow> trpc_code + 'a" where
  "catch_rethrow r =
     (case r of
        Inl (TRPCError code) \<Rightarrow> Inl code
      | Inl Error \<Rightarrow> Inl INTERNAL_SERVER_ERROR
      | Inr v \<Rightarrow> Inr v)"

section \<open>The procedures\<close>

subsection \<open>getUsers\<close>

text \<open>
  \<^verbatim>\<open>db.query.users.findMany({ with: { organization: true } })\<close>: every user with the
  organization its \<^verbatim>\<open>orgId\<close> references, or none.
\<close>

definition getUsers_try ::
  "env \<Rightarrow> state \<Rightarrow> (thrown + (users_row \<times> orgs_row option) list) \<times> state" where
  "getUsers_try e s =
     (if db_fails e Users_findMany then (Inl Error, s)
      else (Inr (map (\<lambda>u. (u, findFirst (\<lambda>org. orgs_id org = users_orgId u) (orgs s))) (users s)), s))"

definition getUsers ::
  "env \<Rightarrow> ctx \<Rightarrow> state \<Rightarrow> (trpc_code + (users_row \<times> orgs_row option) list) \<times> state" where
  "getUsers e c s =
     (if unauthorized c then (Inl UNAUTHORIZED, s)
      else case getUsers_try e s of (r, s') \<Rightarrow> (catch_internal r, s'))"

subsection \<open>getOrgs\<close>

definition getOrgs_try :: "env \<Rightarrow> state \<Rightarrow> (thrown + orgs_row list) \<times> state" where
  "getOrgs_try e s =
     (if db_fails e Orgs_findMany then (Inl Error, s) else (Inr (orgs s), s))"

definition getOrgs :: "env \<Rightarrow> ctx \<Rightarrow> state \<Rightarrow> (trpc_code + orgs_row list) \<times> state" where
  "getOrgs e c s =
     (if unauthorized c then (Inl UNAUTHORIZED, s)
      else case getOrgs_try e s of (r, s') \<Rightarrow> (catch_internal r, s'))"

subsection \<open>createOrg\<close>

definition createOrg_try ::
  "env \<Rightarrow> createOrg_input \<Rightarrow> state \<Rightarrow> (thrown + orgs_row) \<times> state" where
  "createOrg_try e input s =
     (if db_fails e Orgs_findFirst then (Inl Error, s)
      else case findFirst (\<lambda>org. orgs_name org = createOrg_name input) (orgs s) of
        Some existingOrg \<Rightarrow> (Inl (TRPCError CONFLICT), s)
      | None \<Rightarrow>
          let orgId = nanoid e 0 None;
              newOrg = \<lparr>orgs_id = orgId, orgs_name = createOrg_name input\<rparr>
          in if db_fails e Orgs_insert then (Inl Error, s)
             else (Inr newOrg,
                   s\<lparr>orgs := insert_values newOrg (orgs s),
                     writes := writes s @ [Insert_orgs newOrg]\<rparr>))"

definition createOrg ::
  "env \<Rightarrow> ctx \<Rightarrow> createOrg_input \<Rightarrow> state \<Rightarrow> (trpc_code + orgs_row) \<times> state" where
  "createOrg e c input s =
     (if unauthorized c then (Inl UNAUTHORIZED, s)
      else case createOrg_try e input s of (r, s') \<Rightarrow> (catch_rethrow r, s'))"

subsection \<open>createUser\<close>

definition createUser_try ::
  "env \<Rightarrow> createUser_input \<Rightarrow> state \<Rightarrow> (thrown + users_row) \<times> state" where
  "createUser_try e input s =
     (if db_fails e Orgs_findFirst then (Inl Error, s)
      else case findFirst (\<lambda>org. orgs_id org = createUser_orgId input) (orgs s) of
        None \<Rightarrow> (Inl (TRPCError NOT_FOUND), s)
      | Some org \<Rightarrow>
      if db_fails e Users_findFirst then (Inl Error, s)
      else case findFirst (\<lambda>u. users_email u = createUser_email input) (users s) of
        Some existingUser \<Rightarrow> (Inl (TRPCError CONFLICT), s)
      | None \<Rightarrow>
          let userId = nanoid e 0 None;
              now = Date_new e 0
          in case hashPassword e (createUser_password input) of
            None \<Rightarrow> (Inl Error, s)
          | Some hashedPassword \<Rightarrow>
              let newUser =
                    \<lparr>users_id = userId,
                     users_name = createUser_name input,
                     users_email = createUser_email input,
                     users_emailVerified = True,
                     users_orgId = createUser_orgId input,
                     users_role = role_text (createUser_role input),
                     users_createdAt = now,
                     users_updatedAt = now\<rparr>
              in if db_fails e Users_insert then (Inl Error, s)
                 else
                   let s1 = s\<lparr>users := insert_values newUser (users s),
                              writes := writes s @ [Insert_users newUser]\<rparr>;
                       newAccount =
                         \<lparr>accounts_id = nanoid e 1 None,
                          accounts_userId = userId,
                          accounts_providerId = ''credential'',
                          accounts_accountId = userId,
                          accounts_password = hashedPassword,
                          accounts_createdAt = now,
                          accounts_updatedAt = now\<rparr>
                   in if db_fails e Accounts_insert then (Inl Error, s1)
                      else (Inr newUser,
                            s1\<lparr>accounts := insert_values newAccount (accounts s1),
                               writes := writes s1 @ [Insert_accounts newAccount]\<rparr>))"

definition createUser ::
  "env \<Rightarrow> ctx \<Rightarrow> createUser_input \<Rightarrow> state \<Rightarrow> (trpc_code + users_row) \<times> state" where
  "createUser e c input s =
     (if unauthorized c then (Inl UNAUTHORIZED, s)
      else case createUser_try e input s of (r, s') \<Rightarrow> (catch_rethrow r, s'))"

subsection \<open>inviteUser\<close>

text \<open>A template literal prints an unset environment variable as \<^verbatim>\<open>undefined\<close>.\<close>

definition app_base_url :: "env \<Rightarrow> string" where
  "app_base_url e = (case NEXT_PUBLIC_APP_URL e of None \<Rightarrow> ''undefined'' | Some url \<Rightarrow> url)"

definition inviteUrl_of :: "env \<Rightarrow> string \<Rightarrow> string \<Rightarrow> string" where
  "inviteUrl_of e inviteToken addr =
     app_base_url e @ ''/auth/register?token='' @ inviteToken @ ''&email='' @ addr"

text \<open>The \<^verbatim>\<open>html\<close> template of the invitation, with its line breaks and indentation.\<close>

definition invite_html :: "string \<Rightarrow> string \<Rightarrow> string" where
  "invite_html orgName inviteUrl =
     [CHR 0x0A] @ replicate 24 (CHR '' '') @
     ''<h1>You'' @ [CHR 0x27] @ ''ve been invited to join '' @ orgName @ ''</h1>'' @
     [CHR 0x0A] @ replicate 24 (CHR '' '') @
     ''<p>Click the link below to create your account:</p>'' @
     [CHR 0x0A] @ replicate 24 (CHR '' '') @
     ''<a href='' @ [CHR 0x22] @ inviteUrl @ [CHR 0x22] @ ''>Accept Invitation</a>'' @
     [CHR 0x0A] @ replicate 24 (CHR '' '') @
     ''<p>This link will expire in 7 days.</p>'' @
     [CHR 0x0A] @ replicate 20 (CHR '' '')"

definition inviteUser_try ::
  "env \<Rightarrow> inviteUser_input \<Rightarrow> state \<Rightarrow> (thrown + invite_ack) \<times> state" where
  "inviteUser_try e input s =
     (if db_fails e Orgs_findFirst then (Inl Error, s)
      else case findFirst (\<lambda>org. orgs_id org = inviteUser_orgId input) (orgs s) of
        None \<Rightarrow> (Inl (TRPCError NOT_FOUND), s)
      | Some org \<Rightarrow>
      if db_fails e Users_findFirst then (Inl Error, s)
      else case findFirst (\<lambda>u. users_email u = inviteUser_email input) (users s) of
        Some existingUser \<Rightarrow> (Inl (TRPCError CONFLICT), s)
      | None \<Rightarrow>
          let inviteToken = nanoid e 0 (Some 32);
              now = Date_new e 0;
              expiresAt = setDate_plus e (Date_new e 1) 7;
              invitation =
                \<lparr>verifications_id = nanoid e 1 None,
                 verifications_identifier = inviteUser_email input,
                 verifications_value =
                   JSON_stringify
                     [(''token'', inviteToken),
                      (''orgId'', inviteUser_orgId input),
                      (''role'', role_text (inviteUser_role input))],
                 verifications_expiresAt = expiresAt,
                 verifications_createdAt = now,
                 verifications_updatedAt = now\<rparr>
          in if db_fails e Verifications_insert then (Inl Error, s)
             else
               let s1 = s\<lparr>verifications := insert_values invitation (verifications s),
                          writes := writes s @ [Insert_verifications invitation]\<rparr>;
                   inviteUrl = inviteUrl_of e inviteToken (inviteUser_email input);
                   m = \<lparr>to = inviteUser_email input,
                        subject = ''Invitation to join '' @ orgs_name org,
                        html = invite_html (orgs_name org) inviteUrl\<rparr>
               in case sendEmail e m s1 of
                    (Inl x, s2) \<Rightarrow> (Inl x, s2)
                  | (Inr u, s2) \<Rightarrow>
                      (Inr \<lparr>success = True, email = inviteUser_email input\<rparr>, s2))"

text \<open>The \<^verbatim>\<open>catch\<close> block of inviteUser does not look at what it caught.\<close>

definition inviteUser ::
  "env \<Rightarrow> ctx \<Rightarrow> inviteUser_input \<Rightarrow> state \<Rightarrow> (trpc_code + invite_ack) \<times> state" where
  "inviteUser e c input s =
     (if unauthorized c then (Inl UNAUTHORIZED, s)
      else case inviteUser_try e input s of (r, s') \<Rightarrow> (catch_internal r, s'))"

subsection \<open>removeUser\<close>

text \<open>
  Reading \<^verbatim>\<open>ctx.session.user.id\<close> without a session user would throw a TypeError inside
  the \<^verbatim>\<open>try\<close> block; the guard in front of the block excludes it.
\<close>

definition removeUser_try ::
  "env \<Rightarrow> ctx \<Rightarrow> removeUser_input \<Rightarrow> state \<Rightarrow> (thrown + ack) \<times> state" where
  "removeUser_try e c input s =
     (if db_fails e Users_findFirst then (Inl Error, s)
      else case findFirst (\<lambda>u. users_id u = removeUser_userId input) (users s) of
        None \<Rightarrow> (Inl (TRPCError NOT_FOUND), s)
      | Some u \<Rightarrow>
      (case session_user_of c of
        None \<Rightarrow> (Inl Error, s)
      | Some me \<Rightarrow>
      if users_id u = user_id me then (Inl (TRPCError FORBIDDEN), s)
      else if db_fails e CommunityMembers_delete then (Inl Error, s)
      else
        let s1 = s\<lparr>communityMembers :=
                     delete_where (\<lambda>m. communityMembers_userId m = removeUser_userId input)
                       (communityMembers s),
                   writes := writes s @ [Delete_communityMembers (removeUser_userId input)]\<rparr>
        in if db_fails e Accounts_delete then (Inl Error, s1)
        else
          let s2 = s1\<lparr>accounts :=
                        delete_where (\<lambda>a. accounts_userId a = removeUser_userId input)
                          (accounts s1),
                      writes := writes s1 @ [Delete_accounts (removeUser_userId input)]\<rparr>
          in if db_fails e Users_delete then (Inl Error, s2)
          else
            (Inr \<lparr>success = True\<rparr>,
             s2\<lparr>users :=
                   delete_where (\<lambda>u'. users_id u' = removeUser_userId input) (users s2),
                 writes := writes s2 @ [Delete_users (removeUser_userId input)]\<rparr>)))"

definition removeUser ::
  "env \<Rightarrow> ctx \<Rightarrow> removeUser_input \<Rightarrow> state \<Rightarrow> (trpc_code + ack) \<times> state" where
  "removeUser e c input s =
     (if unauthorized c then (Inl UNAUTHORIZED, s)
      else case removeUser_try e c input s of (r, s') \<Rightarrow> (catch_rethrow r, s'))"

subsection \<open>getUniqueLoginsPerDay\<close>

text \<open>
  The SQL text, clause by clause.
  \<^verbatim>\<open>GROUP BY DATE("created_at")\<close>: one group per calendar day that occurs.
\<close>

definition login_dates :: "(int \<Rightarrow> int) \<Rightarrow> login_events_row list \<Rightarrow> int list" where
  "login_dates DATE rows = remdups (map (\<lambda>r. DATE (login_events_created_at r)) rows)"

text \<open>
  \<^verbatim>\<open>COUNT(DISTINCT "user_id")\<close> over the group of day \<open>d\<close>: the distinct values that are
  not NULL.
\<close>

definition count_distinct_user_id :: "(int \<Rightarrow> int) \<Rightarrow> login_events_row list \<Rightarrow> int \<Rightarrow> nat" where
  "count_distinct_user_id DATE rows d =
     length (remdups (List.map_filter login_events_user_id
       (filter (\<lambda>r. DATE (login_events_created_at r) = d) rows)))"

text \<open>\<^verbatim>\<open>ORDER BY date DESC LIMIT 30\<close> over the groups.\<close>

definition unique_logins_sql :: "(int \<Rightarrow> int) \<Rightarrow> login_events_row list \<Rightarrow> login_stat list" where
  "unique_logins_sql DATE rows =
     take 30
       (map (\<lambda>d. \<lparr>date = d, unique_logins = count_distinct_user_id DATE rows d\<rparr>)
          (rev (sort (login_dates DATE rows))))"

definition getUniqueLoginsPerDay_try ::
  "env \<Rightarrow> state \<Rightarrow> (thrown + login_stat list) \<times> state" where
  "getUniqueLoginsPerDay_try e s =
     (if db_fails e LoginEvents_execute then (Inl Error, s)
      else (Inr (unique_logins_sql (sql_DATE e) (login_events s)), s))"

definition getUniqueLoginsPerDay ::
  "env \<Rightarrow> ctx \<Rightarrow> state \<Rightarrow> (trpc_code + login_stat list) \<times> state" where
  "getUniqueLoginsPerDay e c s =
     (if unauthorized c then (Inl UNAUTHORIZED, s)
      else case getUniqueLoginsPerDay_try e s of (r, s') \<Rightarrow> (catch_internal r, s'))"

section \<open>Input schemas\<close>

text \<open>
  \<^verbatim>\<open>publicProcedure.input(schema).mutation(resolver)\<close>: tRPC parses the request input with
  the schema before it calls the resolver; an input that the schema rejects is answered with
  a \<^verbatim>\<open>TRPCError\<close> of code \<open>BAD_REQUEST\<close> and the resolver is not entered. The functions
  above are the resolvers; the procedures below are what a caller reaches. The request input
  is modelled with string-valued fields (an absent field or one of another JSON type fails
  the parse as well). getUsers, getOrgs and getUniqueLoginsPerDay have no \<^verbatim>\<open>.input\<close>, so the
  procedure is the resolver.
\<close>

record createUser_raw =
  createUser_raw_name :: string
  createUser_raw_email :: string
  createUser_raw_password :: string
  createUser_raw_role :: string
  createUser_raw_orgId :: string

record inviteUser_raw =
  inviteUser_raw_email :: string
  inviteUser_raw_orgId :: string
  inviteUser_raw_role :: string

text \<open>\<^verbatim>\<open>z.enum(['admin', 'user'])\<close>\<close>

definition z_enum_role :: "string \<Rightarrow> role_enum option" where
  "z_enum_role str =
     (if str = ''admin'' then Some Role_admin
      else if str = ''user'' then Some Role_user
      else None)"

text \<open>\<^verbatim>\<open>z.object({ name: z.string().min(1) })\<close>\<close>

definition createOrg_schema :: "createOrg_input \<Rightarrow> createOrg_input option" where
  "createOrg_schema raw = (if 1 \<le> length (createOrg_name raw) then Some raw else None)"

text \<open>
  \<^verbatim>\<open>z.object({ name: z.string().min(1), email: z.string().email(),
  password: z.string().min(8), role: z.enum(['admin', 'user']), orgId: z.string() })\<close>
\<close>

definition createUser_schema :: "env \<Rightarrow> createUser_raw \<Rightarrow> createUser_input option" where
  "createUser_schema e raw =
     (case z_enum_role (createUser_raw_role raw) of
        None \<Rightarrow> None
      | Some r \<Rightarrow>
          if 1 \<le> length (createUser_raw_name raw)
             \<and> z_email e (createUser_raw_email raw)
             \<and> 8 \<le> length (createUser_raw_password raw)
          then Some \<lparr>createUser_name = createUser_raw_name raw,
                     createUser_email = createUser_raw_email raw,
                     createUser_password = createUser_raw_password raw,
                     createUser_role = r,
                     createUser_orgId = createUser_raw_orgId raw\<rparr>
          else None)"

text \<open>
  \<^verbatim>\<open>z.object({ email: z.string().email(), orgId: z.string(),
  role: z.enum(['admin', 'user']) })\<close>
\<close>

definition inviteUser_schema :: "env \<Rightarrow> inviteUser_raw \<Rightarrow> inviteUser_input option" where
  "inviteUser_schema e raw =
     (case z_enum_role (inviteUser_raw_role raw) of
        None \<Rightarrow> None
      | Some r \<Rightarrow>
          if z_email e (inviteUser_raw_email raw)
          then Some \<lparr>inviteUser_email = inviteUser_raw_email raw,
                     inviteUser_orgId = inviteUser_raw_orgId raw,
                     inviteUser_role = r\<rparr>
          else None)"

text \<open>\<^verbatim>\<open>z.object({ userId: z.string() })\<close>: every string is accepted.\<close>

definition removeUser_schema :: "removeUser_input \<Rightarrow> removeUser_input option" where
  "removeUser_schema raw = Some raw"

definition createOrg_procedure ::
  "env \<Rightarrow> ctx \<Rightarrow> createOrg_input \<Rightarrow> state \<Rightarrow> (trpc_code + orgs_row) \<times> state" where
  "createOrg_procedure e c raw s =
     (case createOrg_schema raw of
        None \<Rightarrow> (Inl BAD_REQUEST, s)
      | Some input \<Rightarrow> createOrg e c input s)"

definition createUser_procedure ::
  "env \<Rightarrow> ctx \<Rightarrow> createUser_raw \<Rightarrow> state \<Rightarrow> (trpc_code + users_row) \<times> state" where
  "createUser_procedure e c raw s =
     (case createUser_schema e raw of
        None \<Rightarrow> (Inl BAD_REQUEST, s)
      | Some input \<Rightarrow> createUser e c input s)"

definition inviteUser_procedure ::
  "env \<Rightarrow> ctx \<Rightarrow> inviteUser_raw \<Rightarrow> state \<Rightarrow> (trpc_code + invite_ack) \<times> state" where
  "inviteUser_procedure e c raw s =
     (case inviteUser_schema e raw of
        None \<Rightarrow> (Inl BAD_REQUEST, s)
      | Some input \<Rightarrow> inviteUser e c input s)"

definition removeUser_procedure ::
  "env \<Rightarrow> ctx \<Rightarrow> removeUser_input \<Rightarrow> state \<Rightarrow> (trpc_code + ack) \<times> state" where
  "removeUser_procedure e c raw s =
     (case removeUser_schema raw of
        None \<Rightarrow> (Inl BAD_REQUEST, s)
      | Some input \<Rightarrow> removeUser e c input s)"

section \<open>Sample request data\<close>

text \<open>A store with one organization, its administrator and one member, used to run the
  procedures on concrete requests.\<close>

definition acme :: orgs_row where
  "acme = \<lparr>orgs_id = ''org1'', orgs_name = ''Acme''\<rparr>"

definition alice :: users_row where
  "alice = \<lparr>users_id = ''u1'', users_name = ''Alice'', users_email = ''alice@x.com'',
     users_emailVerified = True, users_orgId = ''org1'', users_role = ''admin'',
     users_createdAt = 1000, users_updatedAt = 1000\<rparr>"

definition bob :: users_row where
  "bob = \<lparr>users_id = ''u2'', users_name = ''Bob'', users_email = ''bob@x.com'',
     users_emailVerified = True, users_orgId = ''org1'', users_role = ''user'',
     users_createdAt = 2000, users_updatedAt = 2000\<rparr>"

definition store0 :: state where
  "store0 =
     \<lparr>users = [alice, bob],
      orgs = [acme],
      accounts =
        [\<lparr>accounts_id = ''a2'', accounts_userId = ''u2'', accounts_providerId = ''credential'',
          accounts_accountId = ''u2'', accounts_password = ''h:secret'',
          accounts_createdAt = 2000, accounts_updatedAt = 2000\<rparr>],
      verifications =
        [\<lparr>verifications_id = ''v0'', verifications_identifier = ''bob@x.com'',
          verifications_value = ''{}'', verifications_expiresAt = 9000,
          verifications_createdAt = 1500, verifications_updatedAt = 1500\<rparr>,
         \<lparr>verifications_id = ''v1'', verifications_identifier = ''new@x.com'',
          verifications_value = ''{}'', verifications_expiresAt = 9000,
          verifications_createdAt = 1600, verifications_updatedAt = 1600\<rparr>],
      communityMembers =
        [\<lparr>communityMembers_userId = ''u2'', communityMembers_rest = ''c1''\<rparr>,
         \<lparr>communityMembers_userId = ''u1'', communityMembers_rest = ''c1''\<rparr>],
      login_events =
        [\<lparr>login_events_user_id = Some ''u1'', login_events_created_at = 86400000\<rparr>,
         \<lparr>login_events_user_id = Some ''u2'', login_events_created_at = 86400001\<rparr>,
         \<lparr>login_events_user_id = Some ''u1'', login_events_created_at = 86400002\<rparr>,
         \<lparr>login_events_user_id = Some ''u1'', login_events_created_at = 5\<rparr>],
      writes = [],
      outbox = []\<rparr>"

text \<open>An environment in which no collaborator fails.\<close>

definition env0 :: env where
  "env0 =
     \<lparr>nanoid = (\<lambda>k size. case size of None \<Rightarrow> ''id'' @ replicate (Suc k) (CHR ''x'')
                                       | Some n \<Rightarrow> replicate n (CHR ''t'')),
      Date_new = (\<lambda>k. 5000 + int k),
      hashPassword = (\<lambda>p. Some (''h:'' @ p)),
      db_fails = (\<lambda>c. False),
      sendEmail_fails = False,
      sql_DATE = (\<lambda>t. t div 86400000),
      NEXT_PUBLIC_APP_URL = Some ''https://app.example'',
      LocalTZA = (\<lambda>t isUTC. 0),
      z_email = (\<lambda>addr. CHR ''@'' \<in> set addr)\<rparr>"

text \<open>The same environment with a clock that does not advance between two readings.\<close>

definition env_still :: env where
  "env_still = env0\<lparr>Date_new := (\<lambda>k. 5000)\<rparr>"

text \<open>
  That environment on a server whose zone is five hours behind UTC until the UTC instant
  100000000 and four hours behind from then on (a change to summer time).
\<close>

definition env_dst :: env where
  "env_dst =
     env_still\<lparr>LocalTZA := (\<lambda>t isUTC.
            if isUTC then (if t < 100000000 then - 18000000 else - 14400000)
            else (if t < 100000000 - 18000000 then - 18000000 else - 14400000))\<rparr>"

definition invite_new :: inviteUser_input where
  "invite_new =
     \<lparr>inviteUser_email = ''new@x.com'', inviteUser_orgId = ''org1'',
      inviteUser_role = Role_user\<rparr>"

definition admin_ctx :: ctx where
  "admin_ctx = \<lparr>session = Some \<lparr>user = Some \<lparr>user_id = ''u1'', user_role = ''admin''\<rparr>\<rparr>\<rparr>"

definition member_ctx :: ctx where
  "member_ctx = \<lparr>session = Some \<lparr>user = Some \<lparr>user_id = ''u2'', user_role = ''user''\<rparr>\<rparr>\<rparr>"

definition anonymous_ctx :: ctx where
  "anonymous_ctx = \<lparr>session = None\<rparr>"

section \<open>Basic facts\<close>

lemma findFirst_None: "findFirst p rows = None \<longleftrightarrow> (\<forall>r\<in>set rows. \<not> p r)"
  by (auto simp: findFirst_def find_None_iff)

lemma findFirst_Some: "findFirst p rows = Some r \<Longrightarrow> p r \<and> r \<in> set rows"
  by (auto simp: findFirst_def find_Some_iff)

lemma findFirst_ex: "\<exists>r\<in>set rows. p r \<Longrightarrow> \<exists>r. findFirst p rows = Some r"
  by (cases "findFirst p rows") (auto simp: findFirst_None)

lemmas sample_defs = store0_def env0_def admin_ctx_def member_ctx_def anonymous_ctx_def
  acme_def alice_def bob_def env_still_def env_dst_def invite_new_def

lemmas guard_defs = unauthorized_def session_user_of_def

section \<open>Authorization\<close>

lemma unauthorized_iff:
  "unauthorized c \<longleftrightarrow>
     session c = None \<or>
     (\<exists>ses. session c = Some ses \<and>
        (user ses = None \<or> (\<exists>u. user ses = Some u \<and> user_role u \<noteq> ''admin'')))"
  by (auto simp: unauthorized_def session_user_of_def split: option.splits)

lemma unauthorized_member_ctx: "unauthorized member_ctx"
  by (simp add: unauthorized_def session_user_of_def member_ctx_def)

lemma unauthorized_anonymous_ctx: "unauthorized anonymous_ctx"
  by (simp add: unauthorized_def session_user_of_def anonymous_ctx_def)

lemma authorized_admin_ctx: "\<not> unauthorized admin_ctx"
  by (simp add: unauthorized_def session_user_of_def admin_ctx_def)

text \<open>
  Inside the resolvers the guard comes first: a caller it rejects gets \<open>UNAUTHORIZED\<close> from
  each of the seven, whatever the parsed input, the store and the collaborators are, and the
  state is left as it was.
\<close>

lemma guard_first_in_resolver:
  assumes "unauthorized c"
  shows "getUsers e c s = (Inl UNAUTHORIZED, s)
       \<and> getOrgs e c s = (Inl UNAUTHORIZED, s)
       \<and> createOrg e c org_input s = (Inl UNAUTHORIZED, s)
       \<and> createUser e c user_input s = (Inl UNAUTHORIZED, s)
       \<and> inviteUser e c invite_input s = (Inl UNAUTHORIZED, s)
       \<and> removeUser e c remove_input s = (Inl UNAUTHORIZED, s)
       \<and> getUniqueLoginsPerDay e c s = (Inl UNAUTHORIZED, s)"
  using assms
  by (simp add: getUsers_def getOrgs_def createOrg_def createUser_def inviteUser_def
      removeUser_def getUniqueLoginsPerDay_def)

lemma z_enum_role_None: "z_enum_role str = None \<longleftrightarrow> str \<noteq> ''admin'' \<and> str \<noteq> ''user''"
  by (simp add: z_enum_role_def)

text \<open>
  Claim C1 as stated fails: the authorization check is not the first validation of a
  request. An anonymous caller who sends createOrg an empty name is answered
  \<open>BAD_REQUEST\<close> by the schema, not \<open>UNAUTHORIZED\<close> by the guard.
\<close>

theorem anonymous_createOrg_empty_name_is_bad_request:
  "unauthorized anonymous_ctx
   \<and> createOrg_procedure env0 anonymous_ctx \<lparr>createOrg_name = []\<rparr> store0 =
       (Inl BAD_REQUEST, store0)
   \<and> fst (createOrg_procedure env0 anonymous_ctx \<lparr>createOrg_name = []\<rparr> store0) \<noteq>
       Inl UNAUTHORIZED"
  by (simp add: createOrg_procedure_def createOrg_schema_def unauthorized_anonymous_ctx)

text \<open>
  Claim C1, amended. For a caller without a session user, or whose session role is not
  \<open>admin\<close>: getUsers, getOrgs, getUniqueLoginsPerDay and removeUser fail with
  \<open>UNAUTHORIZED\<close>; createOrg, createUser and inviteUser fail with \<open>UNAUTHORIZED\<close> when the
  input passes the procedure's schema (non-empty name; valid email; password of at least 8
  characters; role \<open>admin\<close> or \<open>user\<close>) and with \<open>BAD_REQUEST\<close> when it does not, the
  schema being parsed before the guard. The guard comes before every other check: the answer
  does not depend on the store or on the collaborators. In every case the state afterwards
  is the state before: no table has changed, no write statement has been issued and no mail
  has been sent.
\<close>

theorem unauthorized_caller_rejected_after_schema:
  assumes "unauthorized c"
  shows "getUsers e c s = (Inl UNAUTHORIZED, s)
       \<and> getOrgs e c s = (Inl UNAUTHORIZED, s)
       \<and> getUniqueLoginsPerDay e c s = (Inl UNAUTHORIZED, s)
       \<and> removeUser_procedure e c remove_raw s = (Inl UNAUTHORIZED, s)
       \<and> createOrg_procedure e c org_raw s =
           (if createOrg_name org_raw = [] then Inl BAD_REQUEST else Inl UNAUTHORIZED, s)
       \<and> createUser_procedure e c user_raw s =
           (if createUser_raw_name user_raw \<noteq> []
               \<and> z_email e (createUser_raw_email user_raw)
               \<and> 8 \<le> length (createUser_raw_password user_raw)
               \<and> (createUser_raw_role user_raw = ''admin''
                    \<or> createUser_raw_role user_raw = ''user'')
            then Inl UNAUTHORIZED else Inl BAD_REQUEST, s)
       \<and> inviteUser_procedure e c invite_raw s =
           (if z_email e (inviteUser_raw_email invite_raw)
               \<and> (inviteUser_raw_role invite_raw = ''admin''
                    \<or> inviteUser_raw_role invite_raw = ''user'')
            then Inl UNAUTHORIZED else Inl BAD_REQUEST, s)"
proof -
  note g = guard_first_in_resolver [OF assms]
  have 1: "getUsers e c s = (Inl UNAUTHORIZED, s)"
    and 2: "getOrgs e c s = (Inl UNAUTHORIZED, s)"
    and 3: "getUniqueLoginsPerDay e c s = (Inl UNAUTHORIZED, s)"
    using g by simp_all
  have 4: "removeUser_procedure e c remove_raw s = (Inl UNAUTHORIZED, s)"
    using g by (simp add: removeUser_procedure_def removeUser_schema_def)
  have 5: "createOrg_procedure e c org_raw s =
           (if createOrg_name org_raw = [] then Inl BAD_REQUEST else Inl UNAUTHORIZED, s)"
    using g by (cases "createOrg_name org_raw")
      (simp_all add: createOrg_procedure_def createOrg_schema_def)
  have 6: "createUser_procedure e c user_raw s =
           (if createUser_raw_name user_raw \<noteq> []
               \<and> z_email e (createUser_raw_email user_raw)
               \<and> 8 \<le> length (createUser_raw_password user_raw)
               \<and> (createUser_raw_role user_raw = ''admin''
                    \<or> createUser_raw_role user_raw = ''user'')
            then Inl UNAUTHORIZED else Inl BAD_REQUEST, s)"
    using g by (cases "createUser_raw_name user_raw")
      (simp_all add: createUser_procedure_def createUser_schema_def z_enum_role_def)
  have 7: "inviteUser_procedure e c invite_raw s =
           (if z_email e (inviteUser_raw_email invite_raw)
               \<and> (inviteUser_raw_role invite_raw = ''admin''
                    \<or> inviteUser_raw_role invite_raw = ''user'')
            then Inl UNAUTHORIZED else Inl BAD_REQUEST, s)"
    using g by (simp add: inviteUser_procedure_def inviteUser_schema_def z_enum_role_def)
  from 1 2 3 4 5 6 7 show ?thesis by simp
qed

theorem unauthorized_caller_rejected_after_schema_witness:
  "unauthorized member_ctx
   \<and> getUsers env0 member_ctx store0 = (Inl UNAUTHORIZED, store0)
   \<and> getOrgs env0 member_ctx store0 = (Inl UNAUTHORIZED, store0)
   \<and> getUniqueLoginsPerDay env0 member_ctx store0 = (Inl UNAUTHORIZED, store0)
   \<and> removeUser_procedure env0 member_ctx \<lparr>removeUser_userId = ''u1''\<rparr> store0 =
       (Inl UNAUTHORIZED, store0)
   \<and> createOrg_procedure env0 member_ctx \<lparr>createOrg_name = ''Beta''\<rparr> store0 =
       (Inl UNAUTHORIZED, store0)
   \<and> createOrg_procedure env0 member_ctx \<lparr>createOrg_name = []\<rparr> store0 =
       (Inl BAD_REQUEST, store0)
   \<and> createUser_procedure env0 member_ctx
         \<lparr>createUser_raw_name = ''Carol'', createUser_raw_email = ''carol@x.com'',
          createUser_raw_password = ''password123'', createUser_raw_role = ''user'',
          createUser_raw_orgId = ''missing''\<rparr> store0 = (Inl UNAUTHORIZED, store0)
   \<and> createUser_procedure env0 member_ctx
         \<lparr>createUser_raw_name = ''Carol'', createUser_raw_email = ''carol@x.com'',
          createUser_raw_password = ''short'', createUser_raw_role = ''user'',
          createUser_raw_orgId = ''org1''\<rparr> store0 = (Inl BAD_REQUEST, store0)
   \<and> inviteUser_procedure env0 member_ctx
         \<lparr>inviteUser_raw_email = ''bob@x.com'', inviteUser_raw_orgId = ''org1'',
          inviteUser_raw_role = ''user''\<rparr> store0 = (Inl UNAUTHORIZED, store0)
   \<and> inviteUser_procedure env0 member_ctx
         \<lparr>inviteUser_raw_email = ''bob@x.com'', inviteUser_raw_orgId = ''org1'',
          inviteUser_raw_role = ''owner''\<rparr> store0 = (Inl BAD_REQUEST, store0)
   \<and> unauthorized anonymous_ctx
   \<and> removeUser_procedure env0 anonymous_ctx \<lparr>removeUser_userId = ''u2''\<rparr> store0 =
       (Inl UNAUTHORIZED, store0)"
proof -
  have z: "z_email env0 ''carol@x.com''" "z_email env0 ''bob@x.com''"
    by (simp_all add: env0_def)
  show ?thesis
    using z unauthorized_member_ctx unauthorized_anonymous_ctx
      unauthorized_caller_rejected_after_schema [OF unauthorized_member_ctx,
        of env0 store0 "\<lparr>removeUser_userId = ''u1''\<rparr>" "\<lparr>createOrg_name = ''Beta''\<rparr>"
        "\<lparr>createUser_raw_name = ''Carol'', createUser_raw_email = ''carol@x.com'',
          createUser_raw_password = ''password123'', createUser_raw_role = ''user'',
          createUser_raw_orgId = ''missing''\<rparr>"
        "\<lparr>inviteUser_raw_email = ''bob@x.com'', inviteUser_raw_orgId = ''org1'',
          inviteUser_raw_role = ''user''\<rparr>"]
      unauthorized_caller_rejected_after_schema [OF unauthorized_member_ctx,
        of env0 store0 "\<lparr>removeUser_userId = ''u1''\<rparr>" "\<lparr>createOrg_name = []\<rparr>"
        "\<lparr>createUser_raw_name = ''Carol'', createUser_raw_email = ''carol@x.com'',
          createUser_raw_password = ''short'', createUser_raw_role = ''user'',
          createUser_raw_orgId = ''org1''\<rparr>"
        "\<lparr>inviteUser_raw_email = ''bob@x.com'', inviteUser_raw_orgId = ''org1'',
          inviteUser_raw_role = ''owner''\<rparr>"]
      unauthorized_caller_rejected_after_schema [OF unauthorized_anonymous_ctx,
        of env0 store0 "\<lparr>removeUser_userId = ''u2''\<rparr>"]
    by simp
qed

section \<open>Failure kinds of inviteUser\<close>

text \<open>
  The \<^verbatim>\<open>catch\<close> block of inviteUser lacks the line
  \<^verbatim>\<open>if (error instanceof TRPCError) throw error;\<close> that createOrg, createUser and removeUser
  have, so the \<open>NOT_FOUND\<close> and \<open>CONFLICT\<close> errors thrown inside its \<^verbatim>\<open>try\<close> block never
  reach the caller.
\<close>

lemma inviteUser_never_reports_validation_failure:
  "fst (inviteUser e c input s) \<noteq> Inl NOT_FOUND \<and> fst (inviteUser e c input s) \<noteq> Inl CONFLICT"
  by (simp add: inviteUser_def catch_internal_def split: prod.split sum.split)

text \<open>
  Claim C2 says that an admin's inviteUser fails with \<open>NOT_FOUND\<close> for an unknown \<open>orgId\<close> and
  with \<open>CONFLICT\<close> for the email of an existing user. The procedure answers
  \<open>INTERNAL_SERVER_ERROR\<close> to both requests, although no collaborator has failed; the store
  is left as it was.
\<close>

theorem inviteUser_validation_failure_reported_as_internal:
  "inviteUser env0 admin_ctx
     \<lparr>inviteUser_email = ''new@x.com'', inviteUser_orgId = ''missing'',
      inviteUser_role = Role_user\<rparr> store0 = (Inl INTERNAL_SERVER_ERROR, store0)
   \<and> inviteUser env0 admin_ctx
     \<lparr>inviteUser_email = ''bob@x.com'', inviteUser_orgId = ''org1'',
      inviteUser_role = Role_user\<rparr> store0 = (Inl INTERNAL_SERVER_ERROR, store0)"
  by (simp add: inviteUser_def inviteUser_try_def catch_internal_def findFirst_def
      guard_defs sample_defs)

section \<open>createUser\<close>

text \<open>
  Claim C5. For an admin caller and a store that answers the lookups: when no organization
  has the given \<open>orgId\<close>, createUser fails with \<open>NOT_FOUND\<close>; when the organization exists
  and some user has exactly the given email, it fails with \<open>CONFLICT\<close> (the organization is
  looked up first). In both cases the state afterwards is the state before: no user row, no
  credential row, no write statement.
\<close>

theorem createUser_validation_failures:
  assumes "\<not> unauthorized c" and "\<not> db_fails e Orgs_findFirst"
  shows "((\<forall>org\<in>set (orgs s). orgs_id org \<noteq> createUser_orgId input)
            \<longrightarrow> createUser e c input s = (Inl NOT_FOUND, s))
       \<and> ((\<exists>org\<in>set (orgs s). orgs_id org = createUser_orgId input)
            \<and> \<not> db_fails e Users_findFirst
            \<and> (\<exists>u\<in>set (users s). users_email u = createUser_email input)
            \<longrightarrow> createUser e c input s = (Inl CONFLICT, s))"
proof (intro conjI impI)
  assume "\<forall>org\<in>set (orgs s). orgs_id org \<noteq> createUser_orgId input"
  then have "findFirst (\<lambda>org. orgs_id org = createUser_orgId input) (orgs s) = None"
    by (simp add: findFirst_None)
  with assms show "createUser e c input s = (Inl NOT_FOUND, s)"
    by (simp add: createUser_def createUser_try_def catch_rethrow_def)
next
  assume h: "(\<exists>org\<in>set (orgs s). orgs_id org = createUser_orgId input)
            \<and> \<not> db_fails e Users_findFirst
            \<and> (\<exists>u\<in>set (users s). users_email u = createUser_email input)"
  then obtain org where
    "findFirst (\<lambda>org. orgs_id org = createUser_orgId input) (orgs s) = Some org"
    using findFirst_ex [of "orgs s" "\<lambda>org. orgs_id org = createUser_orgId input"] by blast
  moreover from h obtain u where
    "findFirst (\<lambda>u. users_email u = createUser_email input) (users s) = Some u"
    using findFirst_ex [of "users s" "\<lambda>u. users_email u = createUser_email input"] by blast
  ultimately show "createUser e c input s = (Inl CONFLICT, s)"
    using assms h by (simp add: createUser_def createUser_try_def catch_rethrow_def)
qed

theorem createUser_validation_failures_witness:
  "\<not> unauthorized admin_ctx \<and> \<not> db_fails env0 Orgs_findFirst
   \<and> ''missing'' \<notin> set (map orgs_id (orgs store0))
   \<and> createUser env0 admin_ctx
        \<lparr>createUser_name = ''Carol'', createUser_email = ''carol@x.com'',
         createUser_password = ''password123'', createUser_role = Role_user,
         createUser_orgId = ''missing''\<rparr> store0 = (Inl NOT_FOUND, store0)
   \<and> (\<exists>org\<in>set (orgs store0). orgs_id org = ''org1'')
   \<and> \<not> db_fails env0 Users_findFirst
   \<and> (\<exists>u\<in>set (users store0). users_email u = ''bob@x.com'')
   \<and> createUser env0 admin_ctx
        \<lparr>createUser_name = ''Bobby'', createUser_email = ''bob@x.com'',
         createUser_password = ''password123'', createUser_role = Role_user,
         createUser_orgId = ''org1''\<rparr> store0 = (Inl CONFLICT, store0)"
proof -
  have a: "\<not> unauthorized admin_ctx" by (simp add: guard_defs sample_defs)
  have f: "\<not> db_fails env0 Orgs_findFirst" "\<not> db_fails env0 Users_findFirst"
    by (simp_all add: env0_def)
  have m: "\<forall>org\<in>set (orgs store0). orgs_id org \<noteq> ''missing''"
    by (simp add: sample_defs)
  have o: "\<exists>org\<in>set (orgs store0). orgs_id org = ''org1''"
    by (simp add: sample_defs)
  have u: "\<exists>u\<in>set (users store0). users_email u = ''bob@x.com''"
    by (simp add: sample_defs)
  have m': "''missing'' \<notin> set (map orgs_id (orgs store0))"
    by (simp add: sample_defs)
  show ?thesis
    using a f m m' o u
      createUser_validation_failures [OF a f(1), of store0
        "\<lparr>createUser_name = ''Carol'', createUser_email = ''carol@x.com'',
         createUser_password = ''password123'', createUser_role = Role_user,
         createUser_orgId = ''missing''\<rparr>"]
      createUser_validation_failures [OF a f(1), of store0
        "\<lparr>createUser_name = ''Bobby'', createUser_email = ''bob@x.com'',
         createUser_password = ''password123'', createUser_role = Role_user,
         createUser_orgId = ''org1''\<rparr>"]
    by simp
qed

text \<open>
  Claim C4. For an admin caller, an existing \<open>orgId\<close>, an email that no user has, and
  collaborators that do not fail (the two lookups, the two inserts, the hashing), createUser
  returns the new user row: identifier from \<^verbatim>\<open>nanoid()\<close>, the given name, email, role and
  \<open>orgId\<close>, \<open>emailVerified = true\<close>, both timestamps the clock reading of this request. The
  users table has grown by that row, the accounts table by exactly one row for that user with
  provider \<open>credential\<close>, account identifier the new user id and the hashed password, and the
  two inserts were issued in this order: user first, credential second.
\<close>

theorem createUser_inserts_user_then_credential:
  assumes "\<not> unauthorized c"
    and "\<not> db_fails e Orgs_findFirst" and "\<not> db_fails e Users_findFirst"
    and "\<not> db_fails e Users_insert" and "\<not> db_fails e Accounts_insert"
    and "hashPassword e (createUser_password input) = Some hashedPassword"
    and "\<exists>org\<in>set (orgs s). orgs_id org = createUser_orgId input"
    and "\<forall>u\<in>set (users s). users_email u \<noteq> createUser_email input"
  shows "createUser e c input s =
     (let newUser =
            \<lparr>users_id = nanoid e 0 None,
             users_name = createUser_name input,
             users_email = createUser_email input,
             users_emailVerified = True,
             users_orgId = createUser_orgId input,
             users_role = role_text (createUser_role input),
             users_createdAt = Date_new e 0,
             users_updatedAt = Date_new e 0\<rparr>;
          newAccount =
            \<lparr>accounts_id = nanoid e 1 None,
             accounts_userId = users_id newUser,
             accounts_providerId = ''credential'',
             accounts_accountId = users_id newUser,
             accounts_password = hashedPassword,
             accounts_createdAt = Date_new e 0,
             accounts_updatedAt = Date_new e 0\<rparr>
      in (Inr newUser,
          s\<lparr>users := users s @ [newUser],
            accounts := accounts s @ [newAccount],
            writes := writes s @ [Insert_users newUser, Insert_accounts newAccount]\<rparr>))"
proof -
  obtain org where "findFirst (\<lambda>org. orgs_id org = createUser_orgId input) (orgs s) = Some org"
    using assms(7) findFirst_ex [of "orgs s" "\<lambda>org. orgs_id org = createUser_orgId input"]
    by blast
  moreover have "findFirst (\<lambda>u. users_email u = createUser_email input) (users s) = None"
    using assms(8) by (simp add: findFirst_None)
  ultimately show ?thesis
    using assms(1-6)
    by (simp add: createUser_def createUser_try_def catch_rethrow_def insert_values_def Let_def)
qed

theorem createUser_inserts_user_then_credential_witness:
  "\<not> unauthorized admin_ctx
   \<and> (\<exists>org\<in>set (orgs store0). orgs_id org = ''org1'')
   \<and> ''carol@x.com'' \<notin> set (map users_email (users store0))
   \<and> hashPassword env0 ''password123'' = Some ''h:password123''
   \<and> createUser env0 admin_ctx
        \<lparr>createUser_name = ''Carol'', createUser_email = ''carol@x.com'',
         createUser_password = ''password123'', createUser_role = Role_user,
         createUser_orgId = ''org1''\<rparr> store0 =
      (Inr \<lparr>users_id = ''idx'', users_name = ''Carol'', users_email = ''carol@x.com'',
            users_emailVerified = True, users_orgId = ''org1'', users_role = ''user'',
            users_createdAt = 5000, users_updatedAt = 5000\<rparr>,
       store0\<lparr>users := users store0 @
                [\<lparr>users_id = ''idx'', users_name = ''Carol'', users_email = ''carol@x.com'',
                  users_emailVerified = True, users_orgId = ''org1'', users_role = ''user'',
                  users_createdAt = 5000, users_updatedAt = 5000\<rparr>],
              accounts := accounts store0 @
                [\<lparr>accounts_id = ''idxx'', accounts_userId = ''idx'',
                  accounts_providerId = ''credential'', accounts_accountId = ''idx'',
                  accounts_password = ''h:password123'', accounts_createdAt = 5000,
                  accounts_updatedAt = 5000\<rparr>],
              writes :=
                [Insert_users
                   \<lparr>users_id = ''idx'', users_name = ''Carol'', users_email = ''carol@x.com'',
                    users_emailVerified = True, users_orgId = ''org1'', users_role = ''user'',
                    users_createdAt = 5000, users_updatedAt = 5000\<rparr>,
                 Insert_accounts
                   \<lparr>accounts_id = ''idxx'', accounts_userId = ''idx'',
                    accounts_providerId = ''credential'', accounts_accountId = ''idx'',
                    accounts_password = ''h:password123'', accounts_createdAt = 5000,
                    accounts_updatedAt = 5000\<rparr>]\<rparr>)"
proof -
  have a: "\<not> unauthorized admin_ctx" by (simp add: guard_defs sample_defs)
  have f: "\<not> db_fails env0 Orgs_findFirst" "\<not> db_fails env0 Users_findFirst"
    "\<not> db_fails env0 Users_insert" "\<not> db_fails env0 Accounts_insert"
    by (simp_all add: env0_def)
  have h: "hashPassword env0 ''password123'' = Some ''h:password123''"
    by (simp add: env0_def)
  have o: "\<exists>org\<in>set (orgs store0). orgs_id org = ''org1''"
    by (simp add: sample_defs)
  have u: "\<forall>u\<in>set (users store0). users_email u \<noteq> ''carol@x.com''"
    by (simp add: sample_defs)
  have n: "nanoid env0 0 None = ''idx''" "nanoid env0 1 None = ''idxx''" "Date_new env0 0 = 5000"
    by (simp_all add: env0_def)
  have w: "writes store0 = []" by (simp add: store0_def)
  have u': "''carol@x.com'' \<notin> set (map users_email (users store0))"
    by (simp add: sample_defs)
  show ?thesis
    using a o u u' h n w
      createUser_inserts_user_then_credential [of admin_ctx env0
        "\<lparr>createUser_name = ''Carol'', createUser_email = ''carol@x.com'',
         createUser_password = ''password123'', createUser_role = Role_user,
         createUser_orgId = ''org1''\<rparr>" "''h:password123''" store0]
      f
    by (simp add: Let_def)
qed

text \<open>
  The order of the two inserts seen from outside: when the credential insert throws, the
  user row is already in the store, and the caller gets \<open>INTERNAL_SERVER_ERROR\<close>.
\<close>

lemma createUser_credential_insert_fails:
  assumes "\<not> unauthorized c"
    and "\<not> db_fails e Orgs_findFirst" and "\<not> db_fails e Users_findFirst"
    and "\<not> db_fails e Users_insert" and "db_fails e Accounts_insert"
    and "hashPassword e (createUser_password input) = Some hashedPassword"
    and "\<exists>org\<in>set (orgs s). orgs_id org = createUser_orgId input"
    and "\<forall>u\<in>set (users s). users_email u \<noteq> createUser_email input"
  shows "createUser e c input s =
     (let newUser =
            \<lparr>users_id = nanoid e 0 None,
             users_name = createUser_name input,
             users_email = createUser_email input,
             users_emailVerified = True,
             users_orgId = createUser_orgId input,
             users_role = role_text (createUser_role input),
             users_createdAt = Date_new e 0,
             users_updatedAt = Date_new e 0\<rparr>
      in (Inl INTERNAL_SERVER_ERROR,
          s\<lparr>users := users s @ [newUser], writes := writes s @ [Insert_users newUser]\<rparr>))"
proof -
  obtain org where "findFirst (\<lambda>org. orgs_id org = createUser_orgId input) (orgs s) = Some org"
    using assms(7) findFirst_ex [of "orgs s" "\<lambda>org. orgs_id org = createUser_orgId input"]
    by blast
  moreover have "findFirst (\<lambda>u. users_email u = createUser_email input) (users s) = None"
    using assms(8) by (simp add: findFirst_None)
  ultimately show ?thesis
    using assms(1-6)
    by (simp add: createUser_def createUser_try_def catch_rethrow_def insert_values_def Let_def)
qed

section \<open>createOrg\<close>

lemma filter_name_unique:
  "distinct (map f rows) \<Longrightarrow> r \<in> set rows \<Longrightarrow> length (filter (\<lambda>x. f x = f r) rows) = 1"
proof (induction rows)
  case Nil
  then show ?case by simp
next
  case (Cons x rows)
  show ?case
  proof (cases "f x = f r")
    case True
    with Cons.prems have "\<forall>y\<in>set rows. f y \<noteq> f r"
      by (metis distinct.simps(2) image_eqI list.simps(9) set_map)
    then have "filter (\<lambda>y. f y = f r) rows = []"
      by (simp add: filter_empty_conv)
    with True show ?thesis by simp
  next
    case False
    with Cons.prems have "r \<in> set rows" by auto
    with Cons False show ?thesis by simp
  qed
qed

lemma filter_name_none: "\<forall>x\<in>set rows. f x \<noteq> n \<Longrightarrow> filter (\<lambda>x. f x = n) rows = []"
  by (simp add: filter_empty_conv)

lemma createOrg_conflict:
  assumes "\<not> unauthorized c" and "\<not> db_fails e Orgs_findFirst"
    and "\<exists>org\<in>set (orgs s). orgs_name org = createOrg_name input"
  shows "createOrg e c input s = (Inl CONFLICT, s)"
proof -
  obtain org where "findFirst (\<lambda>org. orgs_name org = createOrg_name input) (orgs s) = Some org"
    using assms(3) findFirst_ex [of "orgs s" "\<lambda>org. orgs_name org = createOrg_name input"]
    by blast
  with assms(1,2) show ?thesis
    by (simp add: createOrg_def createOrg_try_def catch_rethrow_def)
qed

lemma createOrg_inserts:
  assumes "\<not> unauthorized c" and "\<not> db_fails e Orgs_findFirst" and "\<not> db_fails e Orgs_insert"
    and "\<forall>org\<in>set (orgs s). orgs_name org \<noteq> createOrg_name input"
  shows "createOrg e c input s =
     (let newOrg = \<lparr>orgs_id = nanoid e 0 None, orgs_name = createOrg_name input\<rparr>
      in (Inr newOrg, s\<lparr>orgs := orgs s @ [newOrg], writes := writes s @ [Insert_orgs newOrg]\<rparr>))"
proof -
  have "findFirst (\<lambda>org. orgs_name org = createOrg_name input) (orgs s) = None"
    using assms(4) by (simp add: findFirst_None)
  with assms(1-3) show ?thesis
    by (simp add: createOrg_def createOrg_try_def catch_rethrow_def insert_values_def Let_def)
qed

text \<open>
  Claim C6. For an admin caller and a store that answers (the lookup, and the insert when it
  is reached): when some stored organization has exactly the given name (equality of
  strings, so case-sensitive), createOrg fails with \<open>CONFLICT\<close> and the state is unchanged;
  otherwise it appends the organization made of an identifier from \<^verbatim>\<open>nanoid()\<close> and the given
  name, and returns it. Calling it twice with the same name on a store whose organization
  names are distinct leaves exactly one organization with that name, and the second call
  fails with \<open>CONFLICT\<close>, whichever identifiers the two requests draw. The name may be
  any string; the schema admits the non-empty ones.
\<close>

theorem createOrg_unique_name:
  assumes "\<not> unauthorized c" and "\<not> db_fails e Orgs_findFirst"
  shows "((\<exists>org\<in>set (orgs s). orgs_name org = createOrg_name input)
            \<longrightarrow> createOrg e c input s = (Inl CONFLICT, s))
       \<and> (\<not> db_fails e Orgs_insert
            \<and> (\<forall>org\<in>set (orgs s). orgs_name org \<noteq> createOrg_name input)
            \<longrightarrow> createOrg e c input s =
                  (let newOrg = \<lparr>orgs_id = nanoid e 0 None, orgs_name = createOrg_name input\<rparr>
                   in (Inr newOrg,
                       s\<lparr>orgs := orgs s @ [newOrg],
                         writes := writes s @ [Insert_orgs newOrg]\<rparr>)))
       \<and> (\<not> db_fails e Orgs_insert \<and> \<not> unauthorized c' \<and> \<not> db_fails e' Orgs_findFirst
            \<and> distinct (map orgs_name (orgs s))
            \<longrightarrow> length (filter (\<lambda>org. orgs_name org = createOrg_name input)
                    (orgs (snd (createOrg e' c' input (snd (createOrg e c input s)))))) = 1
                \<and> fst (createOrg e' c' input (snd (createOrg e c input s))) = Inl CONFLICT)"
proof -
  let ?n = "createOrg_name input"
  have conflict: "(\<exists>org\<in>set (orgs s). orgs_name org = ?n)
      \<longrightarrow> createOrg e c input s = (Inl CONFLICT, s)"
    using assms by (simp add: createOrg_conflict)
  have inserted: "\<not> db_fails e Orgs_insert \<and> (\<forall>org\<in>set (orgs s). orgs_name org \<noteq> ?n)
      \<longrightarrow> createOrg e c input s =
            (let newOrg = \<lparr>orgs_id = nanoid e 0 None, orgs_name = ?n\<rparr>
             in (Inr newOrg,
                 s\<lparr>orgs := orgs s @ [newOrg], writes := writes s @ [Insert_orgs newOrg]\<rparr>))"
    using assms by (simp add: createOrg_inserts)
  have twice: "length (filter (\<lambda>org. orgs_name org = ?n)
                    (orgs (snd (createOrg e' c' input (snd (createOrg e c input s)))))) = 1
                \<and> fst (createOrg e' c' input (snd (createOrg e c input s))) = Inl CONFLICT"
    if h: "\<not> db_fails e Orgs_insert \<and> \<not> unauthorized c' \<and> \<not> db_fails e' Orgs_findFirst
            \<and> distinct (map orgs_name (orgs s))"
  proof (cases "\<exists>org\<in>set (orgs s). orgs_name org = ?n")
    case True
    then have 1: "createOrg e c input s = (Inl CONFLICT, s)"
      using assms by (simp add: createOrg_conflict)
    have 2: "createOrg e' c' input s = (Inl CONFLICT, s)"
      using True h by (simp add: createOrg_conflict)
    from True obtain org where "org \<in> set (orgs s)" "orgs_name org = ?n" by blast
    with h have "length (filter (\<lambda>x. orgs_name x = ?n) (orgs s)) = 1"
      using filter_name_unique [of orgs_name "orgs s" org] by simp
    with 1 2 show ?thesis by simp
  next
    case False
    let ?o = "\<lparr>orgs_id = nanoid e 0 None, orgs_name = ?n\<rparr>"
    let ?s1 = "s\<lparr>orgs := orgs s @ [?o], writes := writes s @ [Insert_orgs ?o]\<rparr>"
    from False have none: "\<forall>org\<in>set (orgs s). orgs_name org \<noteq> ?n" by blast
    then have 1: "createOrg e c input s = (Inr ?o, ?s1)"
      using assms h by (simp add: createOrg_inserts Let_def)
    have "\<exists>org\<in>set (orgs ?s1). orgs_name org = ?n" by simp
    then have 2: "createOrg e' c' input ?s1 = (Inl CONFLICT, ?s1)"
      using h by (simp add: createOrg_conflict)
    have "filter (\<lambda>x. orgs_name x = ?n) (orgs s) = []"
      using none by (simp add: filter_name_none)
    then have "length (filter (\<lambda>x. orgs_name x = ?n) (orgs ?s1)) = 1" by simp
    with 1 2 show ?thesis by simp
  qed
  from conflict inserted twice show ?thesis by blast
qed

theorem createOrg_unique_name_witness:
  "\<not> unauthorized admin_ctx \<and> \<not> db_fails env0 Orgs_findFirst \<and> \<not> db_fails env0 Orgs_insert
   \<and> (\<exists>org\<in>set (orgs store0). orgs_name org = ''Acme'')
   \<and> createOrg env0 admin_ctx \<lparr>createOrg_name = ''Acme''\<rparr> store0 = (Inl CONFLICT, store0)
   \<and> ''acme'' \<notin> set (map orgs_name (orgs store0))
   \<and> createOrg env0 admin_ctx \<lparr>createOrg_name = ''acme''\<rparr> store0 =
       (Inr \<lparr>orgs_id = ''idx'', orgs_name = ''acme''\<rparr>,
        store0\<lparr>orgs := orgs store0 @ [\<lparr>orgs_id = ''idx'', orgs_name = ''acme''\<rparr>],
               writes := [Insert_orgs \<lparr>orgs_id = ''idx'', orgs_name = ''acme''\<rparr>]\<rparr>)
   \<and> distinct (map orgs_name (orgs store0))
   \<and> length (filter (\<lambda>org. orgs_name org = ''Beta'')
        (orgs (snd (createOrg env0 admin_ctx \<lparr>createOrg_name = ''Beta''\<rparr>
          (snd (createOrg env0 admin_ctx \<lparr>createOrg_name = ''Beta''\<rparr> store0)))))) = 1
   \<and> fst (createOrg env0 admin_ctx \<lparr>createOrg_name = ''Beta''\<rparr>
          (snd (createOrg env0 admin_ctx \<lparr>createOrg_name = ''Beta''\<rparr> store0))) = Inl CONFLICT"
proof -
  have a: "\<not> unauthorized admin_ctx" by (simp add: guard_defs sample_defs)
  have f: "\<not> db_fails env0 Orgs_findFirst" "\<not> db_fails env0 Orgs_insert"
    by (simp_all add: env0_def)
  have x: "\<exists>org\<in>set (orgs store0). orgs_name org = ''Acme''"
    by (simp add: sample_defs)
  have y: "\<forall>org\<in>set (orgs store0). orgs_name org \<noteq> ''acme''"
    by (simp add: sample_defs)
  have d: "distinct (map orgs_name (orgs store0))"
    by (simp add: sample_defs)
  have n: "nanoid env0 0 None = ''idx''" "writes store0 = []"
    by (simp_all add: sample_defs)
  have y': "''acme'' \<notin> set (map orgs_name (orgs store0))"
    by (simp add: sample_defs)
  show ?thesis
    using a f x y y' d n
      createOrg_unique_name [OF a f(1), of store0 "\<lparr>createOrg_name = ''Acme''\<rparr>"]
      createOrg_unique_name [OF a f(1), of store0 "\<lparr>createOrg_name = ''acme''\<rparr>"]
      createOrg_unique_name [OF a f(1), of store0 "\<lparr>createOrg_name = ''Beta''\<rparr>"
        admin_ctx env0]
    by (simp add: Let_def)
qed

section \<open>removeUser\<close>

lemma admin_not_unauthorized:
  "session_user_of c = Some me \<Longrightarrow> user_role me = ''admin'' \<Longrightarrow> \<not> unauthorized c"
  by (simp add: unauthorized_def)

lemma removeUser_not_found:
  assumes "\<not> unauthorized c" and "\<not> db_fails e Users_findFirst"
    and "\<forall>u\<in>set (users s). users_id u \<noteq> removeUser_userId input"
  shows "removeUser e c input s = (Inl NOT_FOUND, s)"
proof -
  have "findFirst (\<lambda>u. users_id u = removeUser_userId input) (users s) = None"
    using assms(3) by (simp add: findFirst_None)
  with assms(1,2) show ?thesis
    by (simp add: removeUser_def removeUser_try_def catch_rethrow_def)
qed

lemma removeUser_forbidden:
  assumes "session_user_of c = Some me" and "user_role me = ''admin''"
    and "\<not> db_fails e Users_findFirst"
    and "\<exists>u\<in>set (users s). users_id u = removeUser_userId input"
    and "removeUser_userId input = user_id me"
  shows "removeUser e c input s = (Inl FORBIDDEN, s)"
proof -
  obtain u where u: "findFirst (\<lambda>u. users_id u = removeUser_userId input) (users s) = Some u"
    using assms(4) findFirst_ex [of "users s" "\<lambda>u. users_id u = removeUser_userId input"]
    by blast
  then have "users_id u = removeUser_userId input"
    using findFirst_Some [of "\<lambda>u. users_id u = removeUser_userId input" "users s" u] by simp
  with u assms show ?thesis
    by (simp add: removeUser_def removeUser_try_def catch_rethrow_def unauthorized_def)
qed

lemma removeUser_deletes:
  assumes "session_user_of c = Some me" and "user_role me = ''admin''"
    and "\<not> db_fails e Users_findFirst"
    and "\<exists>u\<in>set (users s). users_id u = removeUser_userId input"
    and "removeUser_userId input \<noteq> user_id me"
    and "\<not> db_fails e CommunityMembers_delete" and "\<not> db_fails e Accounts_delete"
    and "\<not> db_fails e Users_delete"
  shows "removeUser e c input s =
     (Inr \<lparr>success = True\<rparr>,
      s\<lparr>communityMembers :=
          filter (\<lambda>m. communityMembers_userId m \<noteq> removeUser_userId input) (communityMembers s),
        accounts := filter (\<lambda>a. accounts_userId a \<noteq> removeUser_userId input) (accounts s),
        users := filter (\<lambda>u. users_id u \<noteq> removeUser_userId input) (users s),
        writes := writes s @
          [Delete_communityMembers (removeUser_userId input),
           Delete_accounts (removeUser_userId input),
           Delete_users (removeUser_userId input)]\<rparr>)"
proof -
  obtain u where u: "findFirst (\<lambda>u. users_id u = removeUser_userId input) (users s) = Some u"
    using assms(4) findFirst_ex [of "users s" "\<lambda>u. users_id u = removeUser_userId input"]
    by blast
  then have "users_id u = removeUser_userId input"
    using findFirst_Some [of "\<lambda>u. users_id u = removeUser_userId input" "users s" u] by simp
  with u assms show ?thesis
    by (simp add: removeUser_def removeUser_try_def catch_rethrow_def unauthorized_def
        delete_where_def Let_def)
qed

lemma getUsers_lists_users:
  assumes "\<not> unauthorized c" and "\<not> db_fails e Users_findMany"
  shows "\<exists>rows. getUsers e c s = (Inr rows, s) \<and> map fst rows = users s"
  using assms by (simp add: getUsers_def getUsers_try_def catch_internal_def comp_def)

text \<open>
  Claim C3. For an admin caller and a lookup that does not throw, removeUser goes through
  three cases in this order. No user row has the given \<open>userId\<close>: \<open>NOT_FOUND\<close>, state
  unchanged. The row exists and \<open>userId\<close> is the caller's own id: \<open>FORBIDDEN\<close>, state
  unchanged. Otherwise, when the three deletes do not throw: the answer is
  \<^verbatim>\<open>{ success: true }\<close>; no membership, no account and no user row of that id is left, all
  other rows are kept; the statements were issued in the order memberships, accounts, user;
  and a later getUsers on the resulting state (by any admin, the query not throwing) lists no
  user with the removed id.
\<close>

theorem removeUser_cascade:
  assumes "session_user_of c = Some me" and "user_role me = ''admin''"
    and "\<not> db_fails e Users_findFirst"
  shows "((\<forall>u\<in>set (users s). users_id u \<noteq> removeUser_userId input)
            \<longrightarrow> removeUser e c input s = (Inl NOT_FOUND, s))
       \<and> ((\<exists>u\<in>set (users s). users_id u = removeUser_userId input)
            \<and> removeUser_userId input = user_id me
            \<longrightarrow> removeUser e c input s = (Inl FORBIDDEN, s))
       \<and> ((\<exists>u\<in>set (users s). users_id u = removeUser_userId input)
            \<and> removeUser_userId input \<noteq> user_id me
            \<and> \<not> db_fails e CommunityMembers_delete \<and> \<not> db_fails e Accounts_delete
            \<and> \<not> db_fails e Users_delete
            \<longrightarrow> removeUser e c input s =
                  (Inr \<lparr>success = True\<rparr>,
                   s\<lparr>communityMembers :=
                       filter (\<lambda>m. communityMembers_userId m \<noteq> removeUser_userId input)
                         (communityMembers s),
                     accounts :=
                       filter (\<lambda>a. accounts_userId a \<noteq> removeUser_userId input) (accounts s),
                     users := filter (\<lambda>u. users_id u \<noteq> removeUser_userId input) (users s),
                     writes := writes s @
                       [Delete_communityMembers (removeUser_userId input),
                        Delete_accounts (removeUser_userId input),
                        Delete_users (removeUser_userId input)]\<rparr>)
                \<and> (\<not> unauthorized c' \<and> \<not> db_fails e' Users_findMany
                     \<longrightarrow> (\<exists>rows. fst (getUsers e' c' (snd (removeUser e c input s))) = Inr rows
                            \<and> removeUser_userId input \<notin> set (map (\<lambda>row. users_id (fst row)) rows))))"
proof -
  let ?uid = "removeUser_userId input"
  have auth: "\<not> unauthorized c"
    using assms(1,2) by (rule admin_not_unauthorized)
  have not_found: "(\<forall>u\<in>set (users s). users_id u \<noteq> ?uid)
      \<longrightarrow> removeUser e c input s = (Inl NOT_FOUND, s)"
    using auth assms(3) by (simp add: removeUser_not_found)
  have forbidden: "(\<exists>u\<in>set (users s). users_id u = ?uid) \<and> ?uid = user_id me
      \<longrightarrow> removeUser e c input s = (Inl FORBIDDEN, s)"
    using assms removeUser_forbidden [of c me e s input] by blast
  have deleted: "removeUser e c input s =
                  (Inr \<lparr>success = True\<rparr>,
                   s\<lparr>communityMembers :=
                       filter (\<lambda>m. communityMembers_userId m \<noteq> ?uid) (communityMembers s),
                     accounts := filter (\<lambda>a. accounts_userId a \<noteq> ?uid) (accounts s),
                     users := filter (\<lambda>u. users_id u \<noteq> ?uid) (users s),
                     writes := writes s @
                       [Delete_communityMembers ?uid, Delete_accounts ?uid, Delete_users ?uid]\<rparr>)
                \<and> (\<not> unauthorized c' \<and> \<not> db_fails e' Users_findMany
                     \<longrightarrow> (\<exists>rows. fst (getUsers e' c' (snd (removeUser e c input s))) = Inr rows
                            \<and> ?uid \<notin> set (map (\<lambda>row. users_id (fst row)) rows)))"
    if h: "(\<exists>u\<in>set (users s). users_id u = ?uid) \<and> ?uid \<noteq> user_id me
            \<and> \<not> db_fails e CommunityMembers_delete \<and> \<not> db_fails e Accounts_delete
            \<and> \<not> db_fails e Users_delete"
  proof
    show r: "removeUser e c input s =
                  (Inr \<lparr>success = True\<rparr>,
                   s\<lparr>communityMembers :=
                       filter (\<lambda>m. communityMembers_userId m \<noteq> ?uid) (communityMembers s),
                     accounts := filter (\<lambda>a. accounts_userId a \<noteq> ?uid) (accounts s),
                     users := filter (\<lambda>u. users_id u \<noteq> ?uid) (users s),
                     writes := writes s @
                       [Delete_communityMembers ?uid, Delete_accounts ?uid, Delete_users ?uid]\<rparr>)"
      using assms h removeUser_deletes [of c me e s input] by blast
    show "\<not> unauthorized c' \<and> \<not> db_fails e' Users_findMany
            \<longrightarrow> (\<exists>rows. fst (getUsers e' c' (snd (removeUser e c input s))) = Inr rows
                   \<and> ?uid \<notin> set (map (\<lambda>row. users_id (fst row)) rows))"
    proof
      assume g: "\<not> unauthorized c' \<and> \<not> db_fails e' Users_findMany"
      let ?s' = "snd (removeUser e c input s)"
      from g obtain rows where rows: "getUsers e' c' ?s' = (Inr rows, ?s')"
        "map fst rows = users ?s'"
        using getUsers_lists_users [of c' e' ?s'] by blast
      have "map (\<lambda>row. users_id (fst row)) rows = map users_id (map fst rows)"
        by (simp add: comp_def)
      also have "\<dots> = map users_id (filter (\<lambda>u. users_id u \<noteq> ?uid) (users s))"
        using rows(2) r by simp
      finally have "?uid \<notin> set (map (\<lambda>row. users_id (fst row)) rows)"
        by auto
      with rows(1) show "\<exists>rows. fst (getUsers e' c' ?s') = Inr rows
                   \<and> ?uid \<notin> set (map (\<lambda>row. users_id (fst row)) rows)"
        by simp
    qed
  qed
  from not_found forbidden deleted show ?thesis by blast
qed

theorem removeUser_cascade_witness:
  "session_user_of admin_ctx = Some \<lparr>user_id = ''u1'', user_role = ''admin''\<rparr>
   \<and> \<not> db_fails env0 Users_findFirst
   \<and> ''u9'' \<notin> set (map users_id (users store0))
   \<and> removeUser env0 admin_ctx \<lparr>removeUser_userId = ''u9''\<rparr> store0 = (Inl NOT_FOUND, store0)
   \<and> (\<exists>u\<in>set (users store0). users_id u = ''u1'')
   \<and> removeUser env0 admin_ctx \<lparr>removeUser_userId = ''u1''\<rparr> store0 = (Inl FORBIDDEN, store0)
   \<and> (\<exists>u\<in>set (users store0). users_id u = ''u2'')
   \<and> removeUser env0 admin_ctx \<lparr>removeUser_userId = ''u2''\<rparr> store0 =
        (Inr \<lparr>success = True\<rparr>,
         store0\<lparr>communityMembers :=
                  [\<lparr>communityMembers_userId = ''u1'', communityMembers_rest = ''c1''\<rparr>],
                accounts := [],
                users := [alice],
                writes :=
                  [Delete_communityMembers ''u2'', Delete_accounts ''u2'', Delete_users ''u2'']\<rparr>)
   \<and> (\<exists>rows. fst (getUsers env0 admin_ctx
          (snd (removeUser env0 admin_ctx \<lparr>removeUser_userId = ''u2''\<rparr> store0))) = Inr rows
        \<and> ''u2'' \<notin> set (map (\<lambda>row. users_id (fst row)) rows))"
proof -
  have a: "session_user_of admin_ctx = Some \<lparr>user_id = ''u1'', user_role = ''admin''\<rparr>"
    by (simp add: session_user_of_def admin_ctx_def)
  have r: "user_role \<lparr>user_id = ''u1'', user_role = ''admin''\<rparr> = ''admin''" by simp
  have na: "\<not> unauthorized admin_ctx" by (simp add: guard_defs sample_defs)
  have f: "\<not> db_fails env0 Users_findFirst" "\<not> db_fails env0 CommunityMembers_delete"
    "\<not> db_fails env0 Accounts_delete" "\<not> db_fails env0 Users_delete"
    "\<not> db_fails env0 Users_findMany"
    by (simp_all add: env0_def)
  have x: "\<forall>u\<in>set (users store0). users_id u \<noteq> ''u9''"
    "\<exists>u\<in>set (users store0). users_id u = ''u1''"
    "\<exists>u\<in>set (users store0). users_id u = ''u2''"
    by (simp_all add: sample_defs)
  have t: "filter (\<lambda>m. communityMembers_userId m \<noteq> ''u2'') (communityMembers store0) =
             [\<lparr>communityMembers_userId = ''u1'', communityMembers_rest = ''c1''\<rparr>]"
    "filter (\<lambda>a. accounts_userId a \<noteq> ''u2'') (accounts store0) = []"
    "filter (\<lambda>u. users_id u \<noteq> ''u2'') (users store0) = [alice]"
    "writes store0 = []"
    by (simp_all add: sample_defs)
  have x': "''u9'' \<notin> set (map users_id (users store0))"
    by (simp add: sample_defs)
  show ?thesis
    using a f x x' t na
      removeUser_cascade [OF a r f(1), of store0 "\<lparr>removeUser_userId = ''u9''\<rparr>"]
      removeUser_cascade [OF a r f(1), of store0 "\<lparr>removeUser_userId = ''u1''\<rparr>"]
      removeUser_cascade [OF a r f(1), of store0 "\<lparr>removeUser_userId = ''u2''\<rparr>"
        admin_ctx env0]
    by auto
qed

text \<open>
  Claim C10. Whatever removeUser answers, the organizations, the verification (invitation)
  records and the login events afterwards are the ones before, no mail is sent, and every
  write statement it has issued is a delete on communityMembers, accounts or users for the
  given \<open>userId\<close>. So a pending invitation addressed to the removed user's email is still
  there after a successful removal.
\<close>

theorem removeUser_frame:
  "orgs (snd (removeUser e c input s)) = orgs s
   \<and> verifications (snd (removeUser e c input s)) = verifications s
   \<and> login_events (snd (removeUser e c input s)) = login_events s
   \<and> outbox (snd (removeUser e c input s)) = outbox s
   \<and> (\<exists>ws. writes (snd (removeUser e c input s)) = writes s @ ws
         \<and> set ws \<subseteq> {Delete_communityMembers (removeUser_userId input),
                       Delete_accounts (removeUser_userId input),
                       Delete_users (removeUser_userId input)})"
  by (simp add: removeUser_def removeUser_try_def Let_def split: option.split)

theorem removeUser_frame_witness:
  "fst (removeUser env0 admin_ctx \<lparr>removeUser_userId = ''u2''\<rparr> store0) = Inr \<lparr>success = True\<rparr>
   \<and> users_email bob = ''bob@x.com''
   \<and> filter (\<lambda>v. verifications_identifier v = ''bob@x.com'')
        (verifications (snd (removeUser env0 admin_ctx \<lparr>removeUser_userId = ''u2''\<rparr> store0))) =
      [\<lparr>verifications_id = ''v0'', verifications_identifier = ''bob@x.com'',
        verifications_value = ''{}'', verifications_expiresAt = 9000,
        verifications_createdAt = 1500, verifications_updatedAt = 1500\<rparr>]
   \<and> orgs (snd (removeUser env0 admin_ctx \<lparr>removeUser_userId = ''u2''\<rparr> store0)) = [acme]"
proof -
  have "fst (removeUser env0 admin_ctx \<lparr>removeUser_userId = ''u2''\<rparr> store0) = Inr \<lparr>success = True\<rparr>"
    by (simp add: removeUser_def removeUser_try_def catch_rethrow_def findFirst_def Let_def
        guard_defs sample_defs)
  moreover have "users_email bob = ''bob@x.com''" by (simp add: bob_def)
  moreover have "verifications store0 =
      [\<lparr>verifications_id = ''v0'', verifications_identifier = ''bob@x.com'',
        verifications_value = ''{}'', verifications_expiresAt = 9000,
        verifications_createdAt = 1500, verifications_updatedAt = 1500\<rparr>,
       \<lparr>verifications_id = ''v1'', verifications_identifier = ''new@x.com'',
        verifications_value = ''{}'', verifications_expiresAt = 9000,
        verifications_createdAt = 1600, verifications_updatedAt = 1600\<rparr>]"
    "orgs store0 = [acme]"
    by (simp_all add: store0_def)
  ultimately show ?thesis
    using removeUser_frame [of env0 admin_ctx "\<lparr>removeUser_userId = ''u2''\<rparr>" store0]
    by simp
qed

section \<open>The invitation payload can be read back\<close>









section \<open>inviteUser\<close>


text \<open>The successful run of inviteUser, step by step.\<close>

lemma inviteUser_success:
  assumes "\<not> unauthorized c"
    and "\<not> db_fails e Orgs_findFirst" and "\<not> db_fails e Users_findFirst"
    and "\<not> db_fails e Verifications_insert" and "\<not> sendEmail_fails e"
    and "findFirst (\<lambda>org. orgs_id org = inviteUser_orgId input) (orgs s) = Some org"
    and "\<forall>u\<in>set (users s). users_email u \<noteq> inviteUser_email input"
  shows "inviteUser e c input s =
     (let inviteToken = nanoid e 0 (Some 32);
          invitation =
            \<lparr>verifications_id = nanoid e 1 None,
             verifications_identifier = inviteUser_email input,
             verifications_value =
               JSON_stringify
                 [(''token'', inviteToken),
                  (''orgId'', inviteUser_orgId input),
                  (''role'', role_text (inviteUser_role input))],
             verifications_expiresAt = setDate_plus e (Date_new e 1) 7,
             verifications_createdAt = Date_new e 0,
             verifications_updatedAt = Date_new e 0\<rparr>;
          inviteUrl =
            app_base_url e @ ''/auth/register?token='' @ inviteToken @ ''&email='' @
            inviteUser_email input;
          m = \<lparr>to = inviteUser_email input,
               subject = ''Invitation to join '' @ orgs_name org,
               html = invite_html (orgs_name org) inviteUrl\<rparr>
      in (Inr \<lparr>success = True, email = inviteUser_email input\<rparr>,
          s\<lparr>verifications := verifications s @ [invitation],
            writes := writes s @ [Insert_verifications invitation],
            outbox := outbox s @ [m]\<rparr>))"
proof -
  have "findFirst (\<lambda>u. users_email u = inviteUser_email input) (users s) = None"
    using assms(7) by (simp add: findFirst_None)
  with assms(1-6) show ?thesis
    by (simp add: inviteUser_def inviteUser_try_def catch_internal_def sendEmail_def
        insert_values_def inviteUrl_of_def Let_def)
qed











text \<open>
  Claim C9. The duplicate check of inviteUser reads the users table only. For an admin
  caller, an existing organization, an email that no user has and collaborators that do not
  fail, the call succeeds whatever the verifications table holds, pending invitations to the
  same email included, and adds one more row for that email and one more mail to it. A
  second such call on the resulting state succeeds again: two calls leave two more
  invitation rows and two more mails for the one address.
\<close>

theorem inviteUser_ignores_pending_invitations:
  assumes "\<not> unauthorized c" and "\<not> unauthorized c'"
    and "\<not> db_fails e Orgs_findFirst" and "\<not> db_fails e Users_findFirst"
    and "\<not> db_fails e Verifications_insert" and "\<not> sendEmail_fails e"
    and "\<not> db_fails e' Orgs_findFirst" and "\<not> db_fails e' Users_findFirst"
    and "\<not> db_fails e' Verifications_insert" and "\<not> sendEmail_fails e'"
    and "\<exists>org\<in>set (orgs s). orgs_id org = inviteUser_orgId input"
    and "\<forall>u\<in>set (users s). users_email u \<noteq> inviteUser_email input"
  shows "fst (inviteUser e c input s) = Inr \<lparr>success = True, email = inviteUser_email input\<rparr>
     \<and> length (filter (\<lambda>v. verifications_identifier v = inviteUser_email input)
          (verifications (snd (inviteUser e c input s)))) =
        length (filter (\<lambda>v. verifications_identifier v = inviteUser_email input)
          (verifications s)) + 1
     \<and> length (filter (\<lambda>m. to m = inviteUser_email input)
          (outbox (snd (inviteUser e c input s)))) =
        length (filter (\<lambda>m. to m = inviteUser_email input) (outbox s)) + 1
     \<and> fst (inviteUser e' c' input (snd (inviteUser e c input s))) =
          Inr \<lparr>success = True, email = inviteUser_email input\<rparr>
     \<and> length (filter (\<lambda>v. verifications_identifier v = inviteUser_email input)
          (verifications (snd (inviteUser e' c' input (snd (inviteUser e c input s)))))) =
        length (filter (\<lambda>v. verifications_identifier v = inviteUser_email input)
          (verifications s)) + 2
     \<and> length (filter (\<lambda>m. to m = inviteUser_email input)
          (outbox (snd (inviteUser e' c' input (snd (inviteUser e c input s)))))) =
        length (filter (\<lambda>m. to m = inviteUser_email input) (outbox s)) + 2"
proof -
  let ?s1 = "snd (inviteUser e c input s)"
  obtain org where org: "findFirst (\<lambda>org. orgs_id org = inviteUser_orgId input) (orgs s) = Some org"
    using assms(11) findFirst_ex [of "orgs s" "\<lambda>org. orgs_id org = inviteUser_orgId input"]
    by blast
  note first = inviteUser_success [OF assms(1) assms(3-6) org assms(12)]
  have same: "orgs ?s1 = orgs s" "users ?s1 = users s"
    using first by (simp_all add: Let_def)
  have org1: "findFirst (\<lambda>org. orgs_id org = inviteUser_orgId input) (orgs ?s1) = Some org"
    using org same by simp
  have users1: "\<forall>u\<in>set (users ?s1). users_email u \<noteq> inviteUser_email input"
    using assms(12) same by simp
  note second = inviteUser_success [OF assms(2) assms(7-10) org1 users1]
  have v1: "length (filter (\<lambda>v. verifications_identifier v = inviteUser_email input)
          (verifications ?s1)) =
        length (filter (\<lambda>v. verifications_identifier v = inviteUser_email input)
          (verifications s)) + 1"
    and m1: "length (filter (\<lambda>m. to m = inviteUser_email input) (outbox ?s1)) =
        length (filter (\<lambda>m. to m = inviteUser_email input) (outbox s)) + 1"
    and r1: "fst (inviteUser e c input s) = Inr \<lparr>success = True, email = inviteUser_email input\<rparr>"
    using first by (simp_all add: Let_def)
  have v2: "length (filter (\<lambda>v. verifications_identifier v = inviteUser_email input)
          (verifications (snd (inviteUser e' c' input ?s1)))) =
        length (filter (\<lambda>v. verifications_identifier v = inviteUser_email input)
          (verifications ?s1)) + 1"
    and m2: "length (filter (\<lambda>m. to m = inviteUser_email input)
          (outbox (snd (inviteUser e' c' input ?s1)))) =
        length (filter (\<lambda>m. to m = inviteUser_email input) (outbox ?s1)) + 1"
    and r2: "fst (inviteUser e' c' input ?s1) =
        Inr \<lparr>success = True, email = inviteUser_email input\<rparr>"
    using second by (simp_all add: Let_def)
  from r1 v1 m1 r2 v2 m2 show ?thesis by simp
qed

theorem inviteUser_ignores_pending_invitations_witness:
  "\<not> unauthorized admin_ctx
   \<and> (\<exists>org\<in>set (orgs store0). orgs_id org = ''org1'')
   \<and> ''new@x.com'' \<notin> set (map users_email (users store0))
   \<and> length (filter (\<lambda>v. verifications_identifier v = ''new@x.com'') (verifications store0)) = 1
   \<and> fst (inviteUser env0 admin_ctx
        \<lparr>inviteUser_email = ''new@x.com'', inviteUser_orgId = ''org1'',
         inviteUser_role = Role_user\<rparr> store0) = Inr \<lparr>success = True, email = ''new@x.com''\<rparr>
   \<and> length (filter (\<lambda>v. verifications_identifier v = ''new@x.com'')
        (verifications (snd (inviteUser env0 admin_ctx
          \<lparr>inviteUser_email = ''new@x.com'', inviteUser_orgId = ''org1'',
           inviteUser_role = Role_user\<rparr>
          (snd (inviteUser env0 admin_ctx
            \<lparr>inviteUser_email = ''new@x.com'', inviteUser_orgId = ''org1'',
             inviteUser_role = Role_user\<rparr> store0)))))) = 3
   \<and> length (filter (\<lambda>m. to m = ''new@x.com'')
        (outbox (snd (inviteUser env0 admin_ctx
          \<lparr>inviteUser_email = ''new@x.com'', inviteUser_orgId = ''org1'',
           inviteUser_role = Role_user\<rparr>
          (snd (inviteUser env0 admin_ctx
            \<lparr>inviteUser_email = ''new@x.com'', inviteUser_orgId = ''org1'',
             inviteUser_role = Role_user\<rparr> store0)))))) = 2"
proof -
  let ?input = "\<lparr>inviteUser_email = ''new@x.com'', inviteUser_orgId = ''org1'',
                 inviteUser_role = Role_user\<rparr>"
  have a: "\<not> unauthorized admin_ctx" by (simp add: guard_defs sample_defs)
  have f: "\<not> db_fails env0 Orgs_findFirst" "\<not> db_fails env0 Users_findFirst"
    "\<not> db_fails env0 Verifications_insert" "\<not> sendEmail_fails env0"
    by (simp_all add: env0_def)
  have o: "\<exists>org\<in>set (orgs store0). orgs_id org = inviteUser_orgId ?input"
    by (simp add: sample_defs)
  have u: "\<forall>u\<in>set (users store0). users_email u \<noteq> inviteUser_email ?input"
    by (simp add: sample_defs)
  have p: "length (filter (\<lambda>v. verifications_identifier v = ''new@x.com'')
             (verifications store0)) = 1"
    "filter (\<lambda>m. to m = ''new@x.com'') (outbox store0) = []"
    by (simp_all add: sample_defs)
  have u': "''new@x.com'' \<notin> set (map users_email (users store0))"
    by (simp add: sample_defs)
  show ?thesis
    using a o u' p inviteUser_ignores_pending_invitations [OF a a f f o u]
    by simp
qed

section \<open>getUniqueLoginsPerDay\<close>

lemma login_dates_desc: "sorted_wrt (>) (rev (sort (login_dates DATE rows)))"
proof -
  have "distinct (login_dates DATE rows)"
    by (simp add: login_dates_def)
  then have "sorted_wrt (<) (sort (login_dates DATE rows))"
    by (simp add: strict_sorted_iff)
  then show ?thesis
    by (simp add: sorted_wrt_rev)
qed

lemma date_unique_logins_sql:
  "map date (unique_logins_sql DATE rows) = take 30 (rev (sort (login_dates DATE rows)))"
  by (simp add: unique_logins_sql_def take_map comp_def)

lemma unique_logins_sql_desc: "sorted_wrt (>) (map date (unique_logins_sql DATE rows))"
proof -
  have "sorted_wrt (>) (take 30 (rev (sort (login_dates DATE rows))))"
    using login_dates_desc [of DATE rows] by (rule sorted_wrt_take)
  then show ?thesis
    by (simp only: date_unique_logins_sql)
qed

lemma count_distinct_user_id_card:
  "count_distinct_user_id DATE rows d =
     card {u. \<exists>ev\<in>set rows. login_events_user_id ev = Some u
                \<and> DATE (login_events_created_at ev) = d}"
proof -
  have "set (List.map_filter login_events_user_id
          (filter (\<lambda>r. DATE (login_events_created_at r) = d) rows)) =
        {u. \<exists>ev\<in>set rows. login_events_user_id ev = Some u
                \<and> DATE (login_events_created_at ev) = d}"
    by (force simp: List.map_filter_def)
  then show ?thesis
    by (simp add: count_distinct_user_id_def length_remdups_card_conv)
qed

lemma unique_logins_sql_counts:
  "r \<in> set (unique_logins_sql DATE rows) \<Longrightarrow>
     unique_logins r = count_distinct_user_id DATE rows (date r)"
  by (auto simp: unique_logins_sql_def dest!: in_set_takeD)

lemma unique_logins_sql_dates:
  "r \<in> set (unique_logins_sql DATE rows) \<Longrightarrow>
     \<exists>ev\<in>set rows. DATE (login_events_created_at ev) = date r"
proof -
  assume "r \<in> set (unique_logins_sql DATE rows)"
  then have "date r \<in> set (map date (unique_logins_sql DATE rows))"
    by simp
  then have "date r \<in> set (login_dates DATE rows)"
    unfolding date_unique_logins_sql by (auto dest: in_set_takeD)
  then show ?thesis
    by (auto simp: login_dates_def)
qed

text \<open>
  Claim C8. For an admin caller and a query that does not throw, getUniqueLoginsPerDay
  leaves the state as it is and returns a list of at most 30 rows whose dates are strictly
  descending, each row's count being the number of distinct user identifiers that have a
  login event on the row's date. This holds for every log and every date function of the
  store.
\<close>

theorem getUniqueLoginsPerDay_report:
  assumes "\<not> unauthorized c" and "\<not> db_fails e LoginEvents_execute"
  shows "\<exists>rows. getUniqueLoginsPerDay e c s = (Inr rows, s)
     \<and> length rows \<le> 30
     \<and> sorted_wrt (>) (map date rows)
     \<and> (\<forall>r\<in>set rows.
          unique_logins r =
            card {u. \<exists>ev\<in>set (login_events s). login_events_user_id ev = Some u
                       \<and> sql_DATE e (login_events_created_at ev) = date r})"
proof -
  let ?rows = "unique_logins_sql (sql_DATE e) (login_events s)"
  have "getUniqueLoginsPerDay e c s = (Inr ?rows, s)"
    using assms
    by (simp add: getUniqueLoginsPerDay_def getUniqueLoginsPerDay_try_def catch_internal_def)
  moreover have "length ?rows \<le> 30"
    by (simp add: unique_logins_sql_def)
  moreover have "sorted_wrt (>) (map date ?rows)"
    by (rule unique_logins_sql_desc)
  moreover have "\<forall>r\<in>set ?rows.
          unique_logins r =
            card {u. \<exists>ev\<in>set (login_events s). login_events_user_id ev = Some u
                       \<and> sql_DATE e (login_events_created_at ev) = date r}"
    by (simp add: unique_logins_sql_counts count_distinct_user_id_card)
  ultimately show ?thesis by blast
qed

lemma store0_report:
  "unique_logins_sql (sql_DATE env0) (login_events store0) =
     [\<lparr>date = 1, unique_logins = 2\<rparr>, \<lparr>date = 0, unique_logins = 1\<rparr>]"
  by (simp add: unique_logins_sql_def login_dates_def count_distinct_user_id_def
      List.map_filter_def sample_defs)

theorem getUniqueLoginsPerDay_report_witness:
  "\<not> unauthorized admin_ctx \<and> \<not> db_fails env0 LoginEvents_execute
   \<and> (\<exists>rows. getUniqueLoginsPerDay env0 admin_ctx store0 = (Inr rows, store0)
        \<and> rows = [\<lparr>date = 1, unique_logins = 2\<rparr>, \<lparr>date = 0, unique_logins = 1\<rparr>]
        \<and> length rows \<le> 30
        \<and> sorted_wrt (>) (map date rows)
        \<and> (\<forall>r\<in>set rows.
             unique_logins r =
               card {u. \<exists>ev\<in>set (login_events store0). login_events_user_id ev = Some u
                          \<and> sql_DATE env0 (login_events_created_at ev) = date r}))"
proof -
  have a: "\<not> unauthorized admin_ctx" by (simp add: guard_defs sample_defs)
  have f: "\<not> db_fails env0 LoginEvents_execute" by (simp add: env0_def)
  have v: "getUniqueLoginsPerDay env0 admin_ctx store0 =
      (Inr [\<lparr>date = 1, unique_logins = 2\<rparr>, \<lparr>date = 0, unique_logins = 1\<rparr>], store0)"
    using a f store0_report
    by (simp add: getUniqueLoginsPerDay_def getUniqueLoginsPerDay_try_def catch_internal_def)
  show ?thesis
    using a f v getUniqueLoginsPerDay_report [OF a f, of store0]
    by auto
qed

end
